theory Spec2Isabelle
  imports Complex_Main "HOL-Library.Word" "HOL-Library.Multiset" "HOL-Library.List_Lexorder"
begin

unbundle bit_operations_syntax

section \<open>The on-disk index of a blob base (library/index.c)\<close>

text \<open>
  The development embeds \<^verbatim>\<open>src/library/index.c\<close>: the comparators, the Bloom sizing,
  the block-table builder, the two-level searcher, the lookup over the bases and the
  sorted-index generator. Pointers into the mapped index are indices into a list of
  records, byte offsets are kept as the code has them (multiples of the record size),
  locks and reference counts are left out (the model is sequential), and a signal that
  ends the process (a division by zero, a failed \<^verbatim>\<open>assert\<close>) is a value of its own.
  The host is taken to be little-endian, where \<^verbatim>\<open>eblob_bswap64\<close> changes nothing.
\<close>

subsection \<open>Keys, records and comparators\<close>

type_synonym eblob_key = "8 word list"

text \<open>
  Modelled from the spec: \<^verbatim>\<open>eblob_id_cmp\<close> is declared in blob.h, which is not under
  src/. The spec orders keys lexicographically on their raw bytes; only the sign of the
  result is used by index.c.
\<close>

fun eblob_id_cmp :: "eblob_key \<Rightarrow> eblob_key \<Rightarrow> int" where
  "eblob_id_cmp [] [] = 0"
| "eblob_id_cmp [] (y # ys) = -1"
| "eblob_id_cmp (x # xs) [] = 1"
| "eblob_id_cmp (x # xs) (y # ys) =
     (if x < y then -1 else if y < x then 1 else eblob_id_cmp xs ys)"

record eblob_disk_control =
  key :: eblob_key
  flags :: "64 word"
  data_size :: "64 word"
  disk_size :: "64 word"
  position :: "64 word"

text \<open>
  Modelled from the spec: the constants and macros of blob.h, which is not under src/.
  The spec gives the corruption limit (100), records of one fixed size and a removal
  bit in the flags; the values it leaves open are the usual ones of the format (a
  64-byte key and four 64-bit fields in a record, two keys and two offsets in an index
  block, the lowest bit for removal, the errno numbers of Linux). The theorems use of
  them only that the sizes are positive, except where a concrete base is evaluated.
  \<^verbatim>\<open>eblob_bswap64\<close> is the identity of a little-endian host.
\<close>

definition BLOB_DISK_CTL_REMOVE :: "64 word" where
  "BLOB_DISK_CTL_REMOVE = 1"

definition eblob_bswap64 :: "64 word \<Rightarrow> 64 word" where
  "eblob_bswap64 x = x"

definition hdr_size :: nat where
  "hdr_size = 96"

definition index_block_sizeof :: nat where
  "index_block_sizeof = 144"

definition EBLOB_ID_SIZE :: nat where
  "EBLOB_ID_SIZE = 64"

definition EBLOB_BLOB_INDEX_CORRUPT_MAX :: nat where
  "EBLOB_BLOB_INDEX_CORRUPT_MAX = 100"

definition ENOENT :: int where "ENOENT = 2"
definition ENOMEM :: int where "ENOMEM = 12"
definition EDEADLK :: int where "EDEADLK = 35"

definition eblob_disk_control_sort :: "eblob_disk_control \<Rightarrow> eblob_disk_control \<Rightarrow> int" where
  "eblob_disk_control_sort dc1 dc2 = eblob_id_cmp (key dc1) (key dc2)"

definition eblob_disk_control_sort_with_flags ::
  "eblob_disk_control \<Rightarrow> eblob_disk_control \<Rightarrow> int" where
  "eblob_disk_control_sort_with_flags dc1 dc2 =
     (let cmp = eblob_id_cmp (key dc1) (key dc2) in
      if cmp = 0 then
        (let cmp1 = (if flags dc1 AND BLOB_DISK_CTL_REMOVE \<noteq> 0
                        \<and> \<not> (flags dc2 AND BLOB_DISK_CTL_REMOVE \<noteq> 0)
                     then -1 else cmp)
         in if \<not> (flags dc1 AND BLOB_DISK_CTL_REMOVE \<noteq> 0)
                 \<and> flags dc2 AND BLOB_DISK_CTL_REMOVE \<noteq> 0
            then 1 else cmp1)
      else cmp)"

record eblob_index_block =
  start_key :: eblob_key
  end_key :: eblob_key
  start_offset :: nat
  end_offset :: nat

definition eblob_key_range_cmp :: "eblob_key \<Rightarrow> eblob_index_block \<Rightarrow> int" where
  "eblob_key_range_cmp k idx =
     (let cmp = eblob_id_cmp k (start_key idx) in
      if cmp < 0 then -1
      else if cmp = 0 then 0
      else (let cmp2 = eblob_id_cmp k (end_key idx) in
            if cmp2 < 0 then 0
            else if cmp2 = 0 then 0
            else 1))"

definition eblob_find_non_removed_callback ::
  "eblob_disk_control \<Rightarrow> eblob_disk_control \<Rightarrow> bool" where
  "eblob_find_non_removed_callback srt dc =
     (let rem = eblob_bswap64 BLOB_DISK_CTL_REMOVE in \<not> (flags srt AND rem \<noteq> 0))"

subsection \<open>The base control structure\<close>

text \<open>
  \<^verbatim>\<open>struct eblob_map_fd\<close>: a descriptor and its mapping. The mapping is the list of the
  records of the file; its size in bytes is \<open>msize\<close>.
\<close>

record eblob_map_fd =
  fd :: int
  mdata :: "eblob_disk_control list"

definition msize :: "eblob_map_fd \<Rightarrow> nat" where
  "msize m = hdr_size * length (mdata m)"

record eblob_stat =
  LST_BLOOM_SIZE :: int
  LST_INDEX_BLOCKS_SIZE :: int
  LST_RECORDS_REMOVED :: int
  LST_REMOVED_SIZE :: int
  LST_INDEX_CORRUPTED_ENTRIES :: int

record eblob_config =
  index_block_size :: nat
  index_block_bloom_length :: nat

text \<open>
  The fields of \<^verbatim>\<open>struct eblob_base_ctl\<close> that index.c reads or writes. A pointer that
  is \<^verbatim>\<open>NULL\<close> is \<open>None\<close>; the Bloom filter is its array of bits.
\<close>

record eblob_base_ctl =
  index_fd :: int
  sort_mfd :: eblob_map_fd
  index_blocks :: "eblob_index_block list option"
  bloom :: "bool list option"
  bloom_size :: nat
  bloom_func_num :: nat
  stat :: eblob_stat
  bindex :: int

datatype trap = SIGFPE | SIGABRT | SIGSEGV | Hang

subsection \<open>Tearing the block table down\<close>

definition eblob_index_blocks_destroy :: "eblob_base_ctl \<Rightarrow> int \<times> eblob_base_ctl" where
  "eblob_index_blocks_destroy bctl =
     (0, bctl\<lparr>index_blocks := None, bloom := None,
              stat := (stat bctl)\<lparr>LST_BLOOM_SIZE := 0, LST_INDEX_BLOCKS_SIZE := 0\<rparr>\<rparr>)"

subsection \<open>Sizing the Bloom filter\<close>

text \<open>
  Both functions divide: by \<^verbatim>\<open>index_block_size\<close> and by the number of records. A zero
  divisor stops the process with \<^verbatim>\<open>SIGFPE\<close>.
\<close>

definition eblob_bloom_size :: "eblob_config \<Rightarrow> eblob_base_ctl \<Rightarrow> trap + nat" where
  "eblob_bloom_size cfg bctl =
     (if index_block_size cfg = 0 then Inl SIGFPE
      else Inr ((((msize (sort_mfd bctl) div hdr_size) div index_block_size cfg) + 1)
                  * index_block_bloom_length cfg div 8))"

text \<open>
  \<^verbatim>\<open>func_num = bits_per_key * 0.69\<close> multiplies in floating point and converts to
  \<^verbatim>\<open>uint8_t\<close>, which drops the fraction: the product is taken here with 0.69 as the
  exact fraction 69/100. A value that does not fit eight bits is kept modulo 256, as
  the conversion through a wider integer register does.
\<close>

definition eblob_bloom_func_num :: "eblob_base_ctl \<Rightarrow> trap + nat" where
  "eblob_bloom_func_num bctl =
     (if msize (sort_mfd bctl) div hdr_size = 0 then Inl SIGFPE
      else
        (let bits_per_key = 8 * bloom_size bctl div (msize (sort_mfd bctl) div hdr_size);
             func_num = (bits_per_key * 69 div 100) mod 256
         in if func_num = 0 then Inr 1
            else if func_num > 20 then Inr 20
            else Inr func_num))"

text \<open>The formula of the specification: rounding to the nearest integer, then clamping.\<close>

definition spec_bloom_func_num :: "nat \<Rightarrow> nat \<Rightarrow> int" where
  "spec_bloom_func_num bsize records =
     max 1 (min 20 (round (8 * real bsize / real records * 0.69)))"

definition trunc_bloom_func_num :: "nat \<Rightarrow> nat \<Rightarrow> int" where
  "trunc_bloom_func_num bsize records =
     max 1 (min 20 \<lfloor>real (8 * bsize div records) * 0.69\<rfloor>)"

subsection \<open>The Bloom filter\<close>

text \<open>
  What index.c takes from its surroundings: \<^verbatim>\<open>eblob_check_record\<close> (0 for a sound
  record), the hash family of the Bloom filter, the outcome of each \<^verbatim>\<open>pread\<close> of the
  sorted index (\<open>None\<close> for a full record; otherwise the value \<^verbatim>\<open>err\<close> holds at the
  jump: \<^verbatim>\<open>-errno\<close>, or the length of a short read) and the outcome of the two
  allocations.
\<close>

record eblob_env =
  check_record :: "eblob_base_ctl \<Rightarrow> eblob_disk_control \<Rightarrow> int"
  bloom_hash :: "nat \<Rightarrow> eblob_key \<Rightarrow> nat"
  pread_fault :: "nat \<Rightarrow> int option"
  calloc_bloom_ok :: bool
  calloc_blocks_ok :: bool

text \<open>
  Modelled from the spec: \<^verbatim>\<open>eblob_bloom_set\<close> and \<^verbatim>\<open>eblob_bloom_get\<close> are declared in
  blob.h, which is not under src/. An insert sets \<open>k\<close> bits, a query answers whether
  all \<open>k\<close> bits are set; the hash family is a parameter. index.c calls both with the
  base and the key only, so the bits are taken modulo the size of the base's whole
  filter. A base without a filter answers every query with absent.
\<close>

definition bloom_bits :: "eblob_env \<Rightarrow> eblob_base_ctl \<Rightarrow> eblob_key \<Rightarrow> nat list" where
  "bloom_bits E bctl k =
     map (\<lambda>i. bloom_hash E i k mod (8 * bloom_size bctl)) [0..<bloom_func_num bctl]"

definition eblob_bloom_set :: "eblob_env \<Rightarrow> eblob_base_ctl \<Rightarrow> eblob_key \<Rightarrow> eblob_base_ctl" where
  "eblob_bloom_set E bctl k =
     bctl\<lparr>bloom := map_option (\<lambda>bits. fold (\<lambda>i bs. bs[i := True]) (bloom_bits E bctl k) bits)
                        (bloom bctl)\<rparr>"

definition eblob_bloom_get :: "eblob_env \<Rightarrow> eblob_base_ctl \<Rightarrow> eblob_key \<Rightarrow> bool" where
  "eblob_bloom_get E bctl k =
     (case bloom bctl of
        None \<Rightarrow> False
      | Some bits \<Rightarrow> list_all (\<lambda>i. i < length bits \<and> bits ! i) (bloom_bits E bctl k))"

subsection \<open>Building the block table\<close>

text \<open>The local variables of \<^verbatim>\<open>eblob_index_blocks_fill\<close> that live across its loops.\<close>

record fill_state =
  fs_bctl :: eblob_base_ctl
  cur_dc :: eblob_disk_control
  block :: nat
  block_id :: nat
  err_count :: nat
  offset :: nat
  removed :: "64 word"
  removed_size :: "64 word"

definition howmany :: "nat \<Rightarrow> nat \<Rightarrow> nat" where
  "howmany x y = (x + (y - 1)) div y"

definition zero_key :: eblob_key where
  "zero_key = replicate EBLOB_ID_SIZE 0"

definition zero_block :: eblob_index_block where
  "zero_block = \<lparr>start_key = zero_key, end_key = zero_key, start_offset = 0, end_offset = 0\<rparr>"

definition zero_dc :: eblob_disk_control where
  "zero_dc = \<lparr>key = zero_key, flags = 0, data_size = 0, disk_size = 0, position = 0\<rparr>"

definition stat_inc_corrupted :: "eblob_base_ctl \<Rightarrow> eblob_base_ctl" where
  "stat_inc_corrupted bctl =
     bctl\<lparr>stat := (stat bctl)\<lparr>LST_INDEX_CORRUPTED_ENTRIES :=
                                 LST_INDEX_CORRUPTED_ENTRIES (stat bctl) + 1\<rparr>\<rparr>"

text \<open>A write through the pointer \<^verbatim>\<open>block\<close> into the table.\<close>

definition block_upd ::
  "nat \<Rightarrow> (eblob_index_block \<Rightarrow> eblob_index_block) \<Rightarrow> eblob_base_ctl \<Rightarrow> eblob_base_ctl" where
  "block_upd n f bctl =
     bctl\<lparr>index_blocks := map_option (\<lambda>bs. bs[n := f (bs ! n)]) (index_blocks bctl)\<rparr>"

text \<open>The label \<^verbatim>\<open>err_out_drop_tree\<close>: destroy the table, return \<^verbatim>\<open>err\<close>.\<close>

definition err_out_drop_tree :: "int \<Rightarrow> eblob_base_ctl \<Rightarrow> int \<times> eblob_base_ctl" where
  "err_out_drop_tree err bctl = (err, snd (eblob_index_blocks_destroy bctl))"

text \<open>
  The body of the inner \<^verbatim>\<open>for\<close> loop, for the record at \<open>offset\<close> in slot \<open>i\<close> of
  the current block. \<open>Inl\<close> is a jump to \<^verbatim>\<open>err_out_drop_tree\<close> with what the function
  then returns; \<open>Inr\<close> is the state after the body (\<^verbatim>\<open>continue\<close> included).
\<close>

definition fill_body ::
  "eblob_env \<Rightarrow> eblob_config \<Rightarrow> nat \<Rightarrow> fill_state \<Rightarrow> (int \<times> eblob_base_ctl) + fill_state" where
  "fill_body E cfg i s =
     (case pread_fault E (offset s) of
        Some err \<Rightarrow> Inl (err_out_drop_tree err (fs_bctl s))
      | None \<Rightarrow>
          (let dc = mdata (sort_mfd (fs_bctl s)) ! (offset s div hdr_size);
               err = check_record E (fs_bctl s) dc
           in if err \<noteq> 0 then
                (if err_count s > EBLOB_BLOB_INDEX_CORRUPT_MAX
                     \<or> i = 0 \<or> i = index_block_size cfg - 1
                 then Inl (err_out_drop_tree err (stat_inc_corrupted (fs_bctl s)))
                 else Inr (s\<lparr>cur_dc := dc,
                             fs_bctl := stat_inc_corrupted (fs_bctl s),
                             err_count := err_count s + 1,
                             offset := offset s + hdr_size\<rparr>))
              else
                (let b1 = (if i = 0 then block_upd (block s) (\<lambda>b. b\<lparr>start_key := key dc\<rparr>)
                                               (fs_bctl s)
                           else fs_bctl s)
                 in if flags dc AND eblob_bswap64 BLOB_DISK_CTL_REMOVE \<noteq> 0 then
                      Inr (s\<lparr>cur_dc := dc, fs_bctl := b1,
                             removed := removed s + 1,
                             removed_size := removed_size s + disk_size dc,
                             offset := offset s + hdr_size\<rparr>)
                    else
                      Inr (s\<lparr>cur_dc := dc, fs_bctl := eblob_bloom_set E b1 (key dc),
                             offset := offset s + hdr_size\<rparr>))))"

lemma fill_body_offset:
  "fill_body E cfg i s = Inr s' \<Longrightarrow> offset s' = offset s + hdr_size"
  by (auto simp: fill_body_def Let_def split: option.splits if_splits)

lemma fill_body_sort:
  "fill_body E cfg i s = Inr s' \<Longrightarrow> sort_mfd (fs_bctl s') = sort_mfd (fs_bctl s)"
  by (auto simp: fill_body_def Let_def stat_inc_corrupted_def block_upd_def eblob_bloom_set_def
           split: option.splits if_splits)

text \<open>The inner \<^verbatim>\<open>for\<close> loop over the slots of one block.\<close>

function fill_for ::
  "eblob_env \<Rightarrow> eblob_config \<Rightarrow> nat \<Rightarrow> fill_state \<Rightarrow> (int \<times> eblob_base_ctl) + fill_state" where
  "fill_for E cfg i s =
     (if i < index_block_size cfg \<and> offset s < msize (sort_mfd (fs_bctl s)) then
        (case fill_body E cfg i s of
           Inl r \<Rightarrow> Inl r
         | Inr s1 \<Rightarrow> fill_for E cfg (i + 1) s1)
      else Inr s)"
  by pat_completeness auto
termination
proof (relation "measure (\<lambda>(E, cfg, i, s). msize (sort_mfd (fs_bctl s)) - offset s)", goal_cases)
  case 1
  show ?case by simp
next
  case (2 E cfg i s s1)
  then have "offset s1 = offset s + hdr_size" "sort_mfd (fs_bctl s1) = sort_mfd (fs_bctl s)"
    by (simp_all add: fill_body_offset fill_body_sort)
  with 2 show ?case by (auto simp: hdr_size_def)
qed

declare fill_for.simps [simp del]

lemma fill_for_sort:
  "fill_for E cfg i s = Inr s' \<Longrightarrow> sort_mfd (fs_bctl s') = sort_mfd (fs_bctl s)"
proof (induction E cfg i s rule: fill_for.induct)
  case (1 E cfg i s)
  show ?case
  proof (cases "i < index_block_size cfg \<and> offset s < msize (sort_mfd (fs_bctl s))")
    case True
    with "1.prems" obtain s1 where b: "fill_body E cfg i s = Inr s1"
      and r: "fill_for E cfg (i + 1) s1 = Inr s'"
      by (subst (asm) fill_for.simps) (auto split: sum.splits)
    from "1.IH"[OF True b r] fill_body_sort[OF b] show ?thesis by simp
  next
    case False
    with "1.prems" show ?thesis by (subst (asm) fill_for.simps) simp
  qed
qed

lemma fill_for_offset:
  "fill_for E cfg i s = Inr s' \<Longrightarrow> offset s \<le> offset s'"
proof (induction E cfg i s rule: fill_for.induct)
  case (1 E cfg i s)
  show ?case
  proof (cases "i < index_block_size cfg \<and> offset s < msize (sort_mfd (fs_bctl s))")
    case True
    with "1.prems" obtain s1 where b: "fill_body E cfg i s = Inr s1"
      and r: "fill_for E cfg (i + 1) s1 = Inr s'"
      by (subst (asm) fill_for.simps) (auto split: sum.splits)
    from "1.IH"[OF True b r] fill_body_offset[OF b] show ?thesis by simp
  next
    case False
    with "1.prems" show ?thesis by (subst (asm) fill_for.simps) simp
  qed
qed

lemma fill_for_progress:
  assumes "fill_for E cfg 0 s = Inr s'" and "0 < index_block_size cfg"
    and "offset s < msize (sort_mfd (fs_bctl s))"
  shows "offset s < offset s'"
proof -
  from assms obtain s1 where b: "fill_body E cfg 0 s = Inr s1"
    and r: "fill_for E cfg (0 + 1) s1 = Inr s'"
    by (subst (asm) fill_for.simps) (auto split: sum.splits)
  from fill_for_offset[OF r] fill_body_offset[OF b] show ?thesis
    by (simp add: hdr_size_def)
qed

text \<open>
  The outer \<^verbatim>\<open>while\<close> loop, one block per round. With \<^verbatim>\<open>index_block_size = 0\<close> the
  inner loop reads nothing, the offset never moves and the loop does not end.
\<close>

function fill_while ::
  "eblob_env \<Rightarrow> eblob_config \<Rightarrow> fill_state \<Rightarrow> trap + ((int \<times> eblob_base_ctl) + fill_state)" where
  "fill_while E cfg s =
     (if offset s < msize (sort_mfd (fs_bctl s)) then
        (if index_block_size cfg = 0 then Inl Hang
         else
           (case fill_for E cfg 0
                   (s\<lparr>block := block_id s, block_id := block_id s + 1,
                      fs_bctl := block_upd (block_id s) (\<lambda>b. b\<lparr>start_offset := offset s\<rparr>)
                                   (fs_bctl s)\<rparr>) of
              Inl r \<Rightarrow> Inr (Inl r)
            | Inr s1 \<Rightarrow>
                fill_while E cfg
                  (s1\<lparr>fs_bctl := block_upd (block s1)
                                    (\<lambda>b. b\<lparr>end_offset := offset s1, end_key := key (cur_dc s1)\<rparr>)
                                    (fs_bctl s1)\<rparr>)))
      else Inr (Inr s))"
  by pat_completeness auto
termination
proof (relation "measure (\<lambda>(E, cfg, s). msize (sort_mfd (fs_bctl s)) - offset s)", goal_cases)
  case 1
  show ?case by simp
next
  case (2 E cfg s s1)
  let ?s0 = "s\<lparr>block := block_id s, block_id := block_id s + 1,
               fs_bctl := block_upd (block_id s) (\<lambda>b. b\<lparr>start_offset := offset s\<rparr>) (fs_bctl s)\<rparr>"
  have srt: "sort_mfd (fs_bctl ?s0) = sort_mfd (fs_bctl s)"
    by (simp add: block_upd_def)
  from 2 have r: "fill_for E cfg 0 ?s0 = Inr s1" by simp
  from 2 srt have lt: "offset ?s0 < msize (sort_mfd (fs_bctl ?s0))" by simp
  from 2 have pos: "0 < index_block_size cfg" by simp
  have "offset s < offset s1"
    using fill_for_progress[OF r pos lt] by simp
  moreover have "sort_mfd (fs_bctl s1) = sort_mfd (fs_bctl s)"
    using fill_for_sort[OF r] srt by simp
  ultimately show ?case using 2 by (simp add: block_upd_def)
qed

declare fill_while.simps [simp del]

definition eblob_index_blocks_fill ::
  "eblob_env \<Rightarrow> eblob_config \<Rightarrow> eblob_base_ctl \<Rightarrow> trap + (int \<times> eblob_base_ctl)" where
  "eblob_index_blocks_fill E cfg bctl0 =
     (let err = (0::int) in
      case eblob_bloom_size cfg bctl0 of
        Inl t \<Rightarrow> Inl t
      | Inr bs \<Rightarrow>
          (let bctl1 = bctl0\<lparr>bloom_size := bs\<rparr> in
           case eblob_bloom_func_num bctl1 of
             Inl t \<Rightarrow> Inl t
           | Inr k \<Rightarrow>
               (let bctl2 = bctl1\<lparr>bloom_func_num := k,
                                   bloom := (if calloc_bloom_ok E
                                             then Some (replicate (8 * bs) False) else None)\<rparr>
                in if bloom bctl2 = None then Inr (- err, bctl2)
                   else
                     (let bctl3 = bctl2\<lparr>stat := (stat bctl2)\<lparr>LST_BLOOM_SIZE := int bs\<rparr>\<rparr>;
                          block_count = howmany (msize (sort_mfd bctl3) div hdr_size)
                                          (index_block_size cfg);
                          bctl4 = bctl3\<lparr>index_blocks :=
                                           (if calloc_blocks_ok E
                                            then Some (replicate block_count zero_block)
                                            else None)\<rparr>
                      in if index_blocks bctl4 = None then Inr (- ENOMEM, bctl4)
                         else
                           (let bctl5 = bctl4\<lparr>stat := (stat bctl4)\<lparr>LST_INDEX_BLOCKS_SIZE :=
                                                  int (block_count * index_block_sizeof)\<rparr>\<rparr>
                            in case fill_while E cfg
                                      \<lparr>fs_bctl = bctl5, cur_dc = zero_dc, block = 0,
                                       block_id = 0, err_count = 0, offset = 0,
                                       removed = 0, removed_size = 0\<rparr> of
                                 Inl t \<Rightarrow> Inl t
                               | Inr (Inl r) \<Rightarrow> Inr r
                               | Inr (Inr s) \<Rightarrow>
                                   Inr (0, (fs_bctl s)\<lparr>stat := (stat (fs_bctl s))
                                             \<lparr>LST_RECORDS_REMOVED := sint (removed s),
                                              LST_REMOVED_SIZE := sint (removed_size s)\<rparr>\<rparr>))))))"

subsection \<open>The two-level search\<close>

record eblob_disk_search_stat =
  loops :: int
  no_sort :: int
  search_on_disk :: int
  bloom_null :: int
  found_index_block :: int
  no_block :: int
  bsearch_reached :: int
  bsearch_found :: int
  additional_reads :: int

text \<open>
  \<^verbatim>\<open>bsearch(3)\<close> of the C library, as glibc writes it: \<open>cmp\<close> is the comparison of the
  key with a member, the result is the index of the member found.
\<close>

function bsearch_loop :: "('a \<Rightarrow> int) \<Rightarrow> 'a list \<Rightarrow> nat \<Rightarrow> nat \<Rightarrow> nat option" where
  "bsearch_loop cmp base l u =
     (if l < u then
        (let idx = (l + u) div 2; c = cmp (base ! idx)
         in if c < 0 then bsearch_loop cmp base l idx
            else if c > 0 then bsearch_loop cmp base (idx + 1) u
            else Some idx)
      else None)"
  by pat_completeness auto
termination
  by (relation "measure (\<lambda>(cmp, base, l, u). u - l)") auto

declare bsearch_loop.simps [simp del]

definition bsearch :: "('a \<Rightarrow> int) \<Rightarrow> 'a list \<Rightarrow> nat \<Rightarrow> nat option" where
  "bsearch cmp base nmemb = bsearch_loop cmp base 0 nmemb"

text \<open>
  The block table as an array: nothing behind a \<^verbatim>\<open>NULL\<close> pointer. The number of blocks
  is read back from the statistics, which \<^verbatim>\<open>eblob_index_blocks_fill\<close> and
  \<^verbatim>\<open>eblob_index_blocks_destroy\<close> set together with the pointer.
\<close>

definition blocks_of :: "eblob_base_ctl \<Rightarrow> eblob_index_block list" where
  "blocks_of bctl = (case index_blocks bctl of None \<Rightarrow> [] | Some bs \<Rightarrow> bs)"

definition eblob_index_blocks_search_nolock_bsearch_nobloom ::
  "eblob_base_ctl \<Rightarrow> eblob_disk_control \<Rightarrow> eblob_disk_search_stat
     \<Rightarrow> nat option \<times> eblob_disk_search_stat" where
  "eblob_index_blocks_search_nolock_bsearch_nobloom bctl dc st =
     (let t = bsearch (eblob_key_range_cmp (key dc)) (blocks_of bctl)
                (nat (LST_INDEX_BLOCKS_SIZE (stat bctl)) div index_block_sizeof)
      in (t, if t \<noteq> None then st\<lparr>found_index_block := found_index_block st + 1\<rparr> else st))"

definition eblob_index_blocks_search_nolock ::
  "eblob_env \<Rightarrow> eblob_base_ctl \<Rightarrow> eblob_disk_control \<Rightarrow> eblob_disk_search_stat
     \<Rightarrow> nat option \<times> eblob_disk_search_stat" where
  "eblob_index_blocks_search_nolock E bctl dc st =
     (if \<not> eblob_bloom_get E bctl (key dc) then (None, st\<lparr>bloom_null := bloom_null st + 1\<rparr>)
      else
        (case eblob_index_blocks_search_nolock_bsearch_nobloom bctl dc st of
           (None, st1) \<Rightarrow> (None, st1\<lparr>no_block := no_block st1 + 1\<rparr>)
         | (Some t, st1) \<Rightarrow> (Some t, st1)))"

text \<open>
  The first loop of \<^verbatim>\<open>eblob_find_on_disk\<close> after the hit: forward from \<open>srt\<close> while
  the pointer is before the end of the mapping and the key is the searched one.
\<close>

function scan_forward ::
  "eblob_disk_control list \<Rightarrow> (eblob_disk_control \<Rightarrow> eblob_disk_control \<Rightarrow> bool)
     \<Rightarrow> eblob_disk_control \<Rightarrow> nat \<Rightarrow> eblob_disk_search_stat
     \<Rightarrow> nat option \<times> eblob_disk_search_stat" where
  "scan_forward ds callback dc srt st =
     (if srt < length ds \<and> eblob_disk_control_sort (ds ! srt) dc = 0 then
        (if callback (ds ! srt) dc then (Some srt, st)
         else scan_forward ds callback dc (srt + 1)
                (st\<lparr>additional_reads := additional_reads st + 1\<rparr>))
      else (None, st))"
  by pat_completeness auto
termination
  by (relation "measure (\<lambda>(ds, callback, dc, srt, st). length ds - srt)") auto

declare scan_forward.simps [simp del]

text \<open>
  The second loop: backward from \<open>srt\<close> (an index that may be \<open>-1\<close>, one before the
  mapping) while the pointer is not before the start.
\<close>

function scan_backward ::
  "eblob_disk_control list \<Rightarrow> (eblob_disk_control \<Rightarrow> eblob_disk_control \<Rightarrow> bool)
     \<Rightarrow> eblob_disk_control \<Rightarrow> int \<Rightarrow> eblob_disk_search_stat
     \<Rightarrow> nat option \<times> eblob_disk_search_stat" where
  "scan_backward ds callback dc srt st =
     (if srt \<ge> 0 then
        (let st1 = st\<lparr>additional_reads := additional_reads st + 1\<rparr>
         in if eblob_disk_control_sort (ds ! nat srt) dc \<noteq> 0 then (None, st1)
            else if callback (ds ! nat srt) dc then (Some (nat srt), st1)
            else scan_backward ds callback dc (srt - 1) st1)
      else (None, st))"
  by pat_completeness auto
termination
  by (relation "measure (\<lambda>(ds, callback, dc, srt, st). nat (srt + 1))") auto

declare scan_backward.simps [simp del]

text \<open>The two loops in sequence, from the hit \<open>sorted_orig\<close> of the binary search.\<close>

definition expand_hit ::
  "eblob_disk_control list \<Rightarrow> (eblob_disk_control \<Rightarrow> eblob_disk_control \<Rightarrow> bool)
     \<Rightarrow> eblob_disk_control \<Rightarrow> nat \<Rightarrow> eblob_disk_search_stat
     \<Rightarrow> nat option \<times> eblob_disk_search_stat" where
  "expand_hit ds callback dc sorted_orig st =
     (case scan_forward ds callback dc sorted_orig st of
        (Some found, st1) \<Rightarrow> (Some found, st1)
      | (None, st1) \<Rightarrow> scan_backward ds callback dc (int sorted_orig - 1) st1)"

text \<open>Subtraction of two \<^verbatim>\<open>uint64_t\<close> values.\<close>

definition u64_sub :: "nat \<Rightarrow> nat \<Rightarrow> nat" where
  "u64_sub a b = unat ((of_nat a :: 64 word) - of_nat b)"

text \<open>
  \<^verbatim>\<open>eblob_find_on_disk\<close>. The result is the index of the record found in the sorted
  mapping; a failed \<^verbatim>\<open>assert\<close> ends the process, and so does a binary search whose
  slice reaches beyond the mapping (which takes a block that starts behind the end of
  the index).
\<close>

definition eblob_find_on_disk ::
  "eblob_env \<Rightarrow> eblob_config \<Rightarrow> eblob_base_ctl \<Rightarrow> eblob_disk_control
     \<Rightarrow> (eblob_disk_control \<Rightarrow> eblob_disk_control \<Rightarrow> bool) \<Rightarrow> eblob_disk_search_stat
     \<Rightarrow> trap + (nat option \<times> eblob_disk_search_stat)" where
  "eblob_find_on_disk E cfg bctl dc callback st0 =
     (let st = st0\<lparr>search_on_disk := search_on_disk st0 + 1\<rparr>;
          ds = mdata (sort_mfd bctl)
      in case eblob_index_blocks_search_nolock E bctl dc st of
           (None, st1) \<Rightarrow> Inr (None, st1)
         | (Some t, st1) \<Rightarrow>
             (let blk = blocks_of bctl ! t;
                  rest = u64_sub (msize (sort_mfd bctl)) (start_offset blk)
              in if \<not> (rest div hdr_size > 0) \<or> \<not> (rest mod hdr_size = 0) then Inl SIGABRT
                 else
                   (let num = (if rest div hdr_size > index_block_size cfg
                               then index_block_size cfg else rest div hdr_size);
                        search_start = start_offset blk div hdr_size;
                        st2 = st1\<lparr>bsearch_reached := bsearch_reached st1 + 1\<rparr>
                    in if search_start + num > length ds then Inl SIGSEGV
                       else
                         (case bsearch (eblob_disk_control_sort dc) (drop search_start ds) num of
                            None \<Rightarrow> Inr (None, st2)
                          | Some h \<Rightarrow>
                              Inr (expand_hit ds callback dc (search_start + h)
                                     (st2\<lparr>bsearch_found := bsearch_found st2 + 1\<rparr>))))))"

subsection \<open>The lookup over the bases\<close>

record eblob_ram_control =
  data_offset :: "64 word"
  index_offset :: nat
  rsize :: "64 word"
  rbctl :: eblob_base_ctl

definition zero_search_stat :: eblob_disk_search_stat where
  "zero_search_stat = \<lparr>loops = 0, no_sort = 0, search_on_disk = 0, bloom_null = 0,
                        found_index_block = 0, no_block = 0, bsearch_reached = 0,
                        bsearch_found = 0, additional_reads = 0\<rparr>"

definition max_tries :: nat where
  "max_tries = 10"

text \<open>
  One traversal of the list of bases, newest first (the list is given in the order of
  the traversal). It ends with the value \<^verbatim>\<open>err\<close> and the descriptor written on a hit,
  or at a base whose \<^verbatim>\<open>index_fd\<close> is negative, or with the process stopped.
\<close>

datatype pass_result =
  Invalidated eblob_disk_search_stat
  | Finished int "eblob_ram_control option" eblob_disk_search_stat
  | Trapped trap

fun lookup_pass ::
  "eblob_env \<Rightarrow> eblob_config \<Rightarrow> eblob_key \<Rightarrow> eblob_base_ctl list \<Rightarrow> eblob_disk_search_stat
     \<Rightarrow> pass_result" where
  "lookup_pass E cfg k [] st = Finished (- ENOENT) None st"
| "lookup_pass E cfg k (bctl # older) st0 =
     (let st = st0\<lparr>loops := loops st0 + 1\<rparr>
      in if index_fd bctl < 0 then Invalidated st
         else if fd (sort_mfd bctl) < 0 then
           lookup_pass E cfg k older (st\<lparr>no_sort := no_sort st + 1\<rparr>)
         else
           (case eblob_find_on_disk E cfg bctl (zero_dc\<lparr>key := k\<rparr>)
                   eblob_find_non_removed_callback st of
              Inl t \<Rightarrow> Trapped t
            | Inr (None, st1) \<Rightarrow> lookup_pass E cfg k older st1
            | Inr (Some i, st1) \<Rightarrow>
                (let dc = mdata (sort_mfd bctl) ! i
                 in Finished 0
                      (Some \<lparr>data_offset = position dc, index_offset = i * hdr_size,
                             rsize = data_size dc, rbctl = bctl\<rparr>)
                      st1)))"

text \<open>
  The label \<^verbatim>\<open>again\<close>. Another thread may change the bases between two traversals:
  \<open>bases n\<close> is the list \<^verbatim>\<open>b->bases\<close> (oldest first) as the traversal after \<open>n\<close>
  restarts finds it.
\<close>

function lookup_again ::
  "eblob_env \<Rightarrow> eblob_config \<Rightarrow> (nat \<Rightarrow> eblob_base_ctl list) \<Rightarrow> eblob_key \<Rightarrow> nat
     \<Rightarrow> eblob_disk_search_stat
     \<Rightarrow> trap + (int \<times> eblob_ram_control option \<times> eblob_disk_search_stat)" where
  "lookup_again E cfg bases k tries st =
     (case lookup_pass E cfg k (rev (bases tries)) st of
        Invalidated st1 \<Rightarrow>
          (if tries > max_tries then Inr (- EDEADLK, None, st1)
           else lookup_again E cfg bases k (tries + 1) st1)
      | Finished err rctl st1 \<Rightarrow> Inr (err, rctl, st1)
      | Trapped t \<Rightarrow> Inl t)"
  by pat_completeness auto
termination
  by (relation "measure (\<lambda>(E, cfg, bases, k, tries, st). max_tries + 1 - tries)") auto

declare lookup_again.simps [simp del]

definition eblob_disk_index_lookup ::
  "eblob_env \<Rightarrow> eblob_config \<Rightarrow> (nat \<Rightarrow> eblob_base_ctl list) \<Rightarrow> eblob_key
     \<Rightarrow> trap + (int \<times> eblob_ram_control option \<times> eblob_disk_search_stat)" where
  "eblob_disk_index_lookup E cfg bases k = lookup_again E cfg bases k 0 zero_search_stat"

subsection \<open>Generating the sorted index\<close>

text \<open>
  \<^verbatim>\<open>qsort(3)\<close> of the C library, driven by the comparator; written as an insertion
  sort.
\<close>

fun insert_cmp :: "('a \<Rightarrow> 'a \<Rightarrow> int) \<Rightarrow> 'a \<Rightarrow> 'a list \<Rightarrow> 'a list" where
  "insert_cmp cmp x [] = [x]"
| "insert_cmp cmp x (y # ys) = (if cmp x y \<le> 0 then x # y # ys else y # insert_cmp cmp x ys)"

definition qsort :: "('a \<Rightarrow> 'a \<Rightarrow> int) \<Rightarrow> 'a list \<Rightarrow> 'a list" where
  "qsort cmp xs = foldr (insert_cmp cmp) xs []"

text \<open>
  What the system answers to \<^verbatim>\<open>eblob_generate_sorted_index\<close>: the two \<^verbatim>\<open>malloc\<close>
  calls, \<^verbatim>\<open>open\<close> (a descriptor, or \<^verbatim>\<open>-errno\<close>), the records of the index file
  behind \<^verbatim>\<open>index_fd\<close>, \<^verbatim>\<open>fstat\<close>, the two mappings, the preallocation and
  \<^verbatim>\<open>msync\<close>. The size of the source is compared as the signed value
  \<^verbatim>\<open>eblob_get_actual_size\<close> returns; the renaming of the file and the release of the
  source mapping change nothing the base control structure holds.
\<close>

record gen_env =
  malloc_file_ok :: bool
  malloc_dst_file_ok :: bool
  open_ret :: int
  index_file :: "eblob_disk_control list"
  fstat_ret :: int
  map_src_err :: int
  preallocate_err :: int
  map_dst_err :: int
  msync_ret :: int

definition eblob_get_actual_size :: "gen_env \<Rightarrow> int" where
  "eblob_get_actual_size G =
     (if fstat_ret G < 0 then fstat_ret G else int (hdr_size * length (index_file G)))"

definition eblob_generate_sorted_index ::
  "gen_env \<Rightarrow> eblob_base_ctl \<Rightarrow> int \<times> eblob_base_ctl" where
  "eblob_generate_sorted_index G bctl =
     (if \<not> malloc_file_ok G then (- ENOMEM, bctl)
      else if \<not> malloc_dst_file_ok G then (- ENOMEM, bctl)
      else if open_ret G < 0 then (open_ret G, bctl)
      else
        (let src_size = eblob_get_actual_size G
         in if src_size \<le> 0 then (src_size, bctl)
            else if map_src_err G \<noteq> 0 then (map_src_err G, bctl)
            else if preallocate_err G \<noteq> 0 then (preallocate_err G, bctl)
            else if map_dst_err G \<noteq> 0 then (map_dst_err G, bctl)
            else
              (let dst = qsort eblob_disk_control_sort_with_flags
                           (take (nat src_size div hdr_size) (index_file G))
               in if msync_ret G = - 1 then (- 1, bctl)
                  else (0, bctl\<lparr>sort_mfd := \<lparr>fd = open_ret G, mdata = dst\<rparr>\<rparr>))))"

subsection \<open>Notions of the specification\<close>

text \<open>A tombstone: a record with the removal bit set.\<close>

definition is_removed :: "eblob_disk_control \<Rightarrow> bool" where
  "is_removed d = (flags d AND BLOB_DISK_CTL_REMOVE \<noteq> 0)"

text \<open>
  The linear expansion in the words of the specification: the run of records with the
  searched key forward from the hit, then the run backward from the record before the
  hit; the first accepted record of the first run, else of the second, else a miss.
\<close>

definition spec_expand ::
  "eblob_disk_control list \<Rightarrow> (eblob_disk_control \<Rightarrow> eblob_disk_control \<Rightarrow> bool)
     \<Rightarrow> eblob_disk_control \<Rightarrow> nat \<Rightarrow> nat option" where
  "spec_expand ds callback dc hit =
     (let same = (\<lambda>j. key (ds ! j) = key dc);
          forward = takeWhile same [hit..<length ds];
          backward = takeWhile same (rev [0..<hit])
      in case find (\<lambda>j. callback (ds ! j) dc) forward of
           Some j \<Rightarrow> Some j
         | None \<Rightarrow> find (\<lambda>j. callback (ds ! j) dc) backward)"

text \<open>
  A sorted index: the keys never decrease, and among the records of one key no live
  record stands before a tombstone.
\<close>

definition sorted_index :: "eblob_disk_control list \<Rightarrow> bool" where
  "sorted_index ds =
     (sorted_wrt (\<lambda>a b. eblob_id_cmp (key a) (key b) \<le> 0) ds
      \<and> (\<forall>i j. i < j \<and> j < length ds \<and> key (ds ! i) = key (ds ! j) \<and> is_removed (ds ! j)
             \<longrightarrow> is_removed (ds ! i)))"

text \<open>
  Range containment of a block: every record of the index whose byte offset lies in
  the block's range of offsets has its key between the block's start and end keys.
\<close>

definition block_contains :: "eblob_disk_control list \<Rightarrow> eblob_index_block \<Rightarrow> bool" where
  "block_contains ds b =
     (\<forall>j < length ds. start_offset b \<le> hdr_size * j \<and> hdr_size * j < end_offset b \<longrightarrow>
        eblob_id_cmp (start_key b) (key (ds ! j)) \<le> 0
        \<and> eblob_id_cmp (key (ds ! j)) (end_key b) \<le> 0)"

definition table_contains :: "eblob_disk_control list \<Rightarrow> eblob_base_ctl \<Rightarrow> bool" where
  "table_contains ds bctl =
     (\<forall>bs. index_blocks bctl = Some bs \<longrightarrow> (\<forall>b\<in>set bs. block_contains ds b))"

subsection \<open>The state of a built base\<close>





subsection \<open>Concrete bases\<close>

text \<open>
  Modelled from the spec: \<^verbatim>\<open>eblob_check_record\<close> is defined outside src/. Of the
  structural checks the spec lists, the one on the record alone: the size on disk is at
  least the size of the data.
\<close>

definition eblob_check_record_spec :: "eblob_base_ctl \<Rightarrow> eblob_disk_control \<Rightarrow> int" where
  "eblob_check_record_spec bctl dc = (if disk_size dc < data_size dc then - 22 else 0)"

text \<open>A hash family under which the keys 02 and 03 collide.\<close>

definition ex_hash :: "nat \<Rightarrow> eblob_key \<Rightarrow> nat" where
  "ex_hash i k = sum_list (map unat k) div 2 + i"

definition ex_env :: eblob_env where
  "ex_env = \<lparr>check_record = eblob_check_record_spec, bloom_hash = ex_hash,
             pread_fault = (\<lambda>_. None), calloc_bloom_ok = True, calloc_blocks_ok = True\<rparr>"

definition ex_cfg :: eblob_config where
  "ex_cfg = \<lparr>index_block_size = 4, index_block_bloom_length = 128\<rparr>"

text \<open>A live record, a tombstone and a record that fails the check, with a one-byte key.\<close>

definition live_dc :: "8 word \<Rightarrow> 64 word \<Rightarrow> eblob_disk_control" where
  "live_dc k pos = \<lparr>key = [k], flags = 0, data_size = 10, disk_size = 20, position = pos\<rparr>"

definition removed_dc :: "8 word \<Rightarrow> 64 word \<Rightarrow> eblob_disk_control" where
  "removed_dc k pos = \<lparr>key = [k], flags = 1, data_size = 10, disk_size = 20, position = pos\<rparr>"

definition corrupt_dc :: "8 word \<Rightarrow> 64 word \<Rightarrow> eblob_disk_control" where
  "corrupt_dc k pos = \<lparr>key = [k], flags = 0, data_size = 30, disk_size = 20, position = pos\<rparr>"

definition zero_stat :: eblob_stat where
  "zero_stat = \<lparr>LST_BLOOM_SIZE = 0, LST_INDEX_BLOCKS_SIZE = 0, LST_RECORDS_REMOVED = 0,
               LST_REMOVED_SIZE = 0, LST_INDEX_CORRUPTED_ENTRIES = 0\<rparr>"

text \<open>A closed base with a sorted index and no block table yet.\<close>

definition ex_bctl :: "int \<Rightarrow> eblob_disk_control list \<Rightarrow> eblob_base_ctl" where
  "ex_bctl n ds = \<lparr>index_fd = 3, sort_mfd = \<lparr>fd = 4, mdata = ds\<rparr>, index_blocks = None,
                  bloom = None, bloom_size = 0, bloom_func_num = 0, stat = zero_stat,
                  bindex = n\<rparr>"

text \<open>The base as \<^verbatim>\<open>eblob_index_blocks_fill\<close> leaves it.\<close>

definition fill_of :: "eblob_env \<Rightarrow> eblob_config \<Rightarrow> eblob_base_ctl \<Rightarrow> eblob_base_ctl" where
  "fill_of E cfg bctl =
     (case eblob_index_blocks_fill E cfg bctl of Inl t \<Rightarrow> bctl | Inr (err, b) \<Rightarrow> b)"

text \<open>A base with one record under a configuration with eight Bloom bits per block.\<close>

definition c8_cfg :: eblob_config where
  "c8_cfg = \<lparr>index_block_size = 4, index_block_bloom_length = 8\<rparr>"

definition c8_bctl :: eblob_base_ctl where
  "c8_bctl = (ex_bctl 0 [live_dc 1 0])\<lparr>bloom_size := 1\<rparr>"

text \<open>
  Six records under blocks of four: the second block holds two records, and the last
  record of the index fails the check.
\<close>

definition c3_bctl :: eblob_base_ctl where
  "c3_bctl = ex_bctl 0 [live_dc 1 0, live_dc 2 0, live_dc 3 0, live_dc 4 0, live_dc 5 0,
                        corrupt_dc 6 0]"

text \<open>
  Two closed bases with their block tables: the older one holds the key 03 live, the
  newer one holds only a tombstone of it.
\<close>

definition ex_older :: eblob_base_ctl where
  "ex_older = fill_of ex_env ex_cfg (ex_bctl 0 [live_dc 1 100, live_dc 3 200, live_dc 5 300])"


text \<open>A base whose only block spans the keys 01 to 64 (hex).\<close>

definition ex_wide :: eblob_base_ctl where
  "ex_wide = fill_of ex_env ex_cfg (ex_bctl 0 [live_dc 1 100, live_dc 3 200, live_dc 100 300])"

text \<open>A base whose block holds the key 07 twice: a tombstone, then a live record.\<close>

definition ex_run :: eblob_base_ctl where
  "ex_run = fill_of ex_env ex_cfg
              (ex_bctl 0 [live_dc 5 100, live_dc 6 200, removed_dc 7 300, live_dc 7 400])"

text \<open>An unsorted index file of three records, and a system where every call succeeds.\<close>

definition ex_gen :: gen_env where
  "ex_gen = \<lparr>malloc_file_ok = True, malloc_dst_file_ok = True, open_ret = 5,
             index_file = [live_dc 3 0, removed_dc 3 1, live_dc 1 2], fstat_ret = 0,
             map_src_err = 0, preallocate_err = 0, map_dst_err = 0, msync_ret = 0\<rparr>"

text \<open>
  Six records under blocks of four, all keys in order; the third record fails the check
  in the middle of the first block.
\<close>

definition c7_bctl :: eblob_base_ctl where
  "c7_bctl = ex_bctl 0 [live_dc 1 0, live_dc 2 0, corrupt_dc 3 0, live_dc 4 0, live_dc 5 0,
                        live_dc 6 0]"

section \<open>Properties\<close>

subsection \<open>Facts about the key order\<close>

lemma eblob_id_cmp_refl: "eblob_id_cmp k k = 0"
  by (induction k) auto

lemma eblob_id_cmp_eq: "eblob_id_cmp a b = 0 \<longleftrightarrow> a = b"
  by (induction a b rule: eblob_id_cmp.induct) auto

lemma eblob_id_cmp_range: "eblob_id_cmp a b \<in> {-1, 0, 1}"
  by (induction a b rule: eblob_id_cmp.induct) auto

lemma eblob_id_cmp_sym: "eblob_id_cmp b a = - eblob_id_cmp a b"
  by (induction a b rule: eblob_id_cmp.induct) auto

lemma eblob_id_cmp_trans:
  "eblob_id_cmp a b \<le> 0 \<Longrightarrow> eblob_id_cmp b c \<le> 0 \<Longrightarrow> eblob_id_cmp a c \<le> 0"
proof (induction a b arbitrary: c rule: eblob_id_cmp.induct)
  case 1
  then show ?case by simp
next
  case (2 y ys)
  then show ?case by (cases c) auto
next
  case (3 x xs)
  then show ?case by simp
next
  case (4 x xs y ys)
  then show ?case by (cases c) (auto split: if_splits)
qed

subsection \<open>eblob_index_blocks_destroy\<close>

text \<open>
  C10. \<^verbatim>\<open>eblob_index_blocks_destroy\<close> always returns 0; afterwards the block table and
  the Bloom pointer are \<^verbatim>\<open>NULL\<close> and the two size statistics are 0; destroying again
  returns 0 and leaves exactly the same state. Nothing else of the base changes: putting
  the two pointers and the two statistics back gives the base as it was. On a base whose
  pointers are \<^verbatim>\<open>NULL\<close> and whose size statistics are 0 (a base already destroyed, or
  whose table was never built) the call changes nothing at all.
\<close>

theorem eblob_index_blocks_destroy_idempotent:
  "fst (eblob_index_blocks_destroy bctl) = 0
   \<and> index_blocks (snd (eblob_index_blocks_destroy bctl)) = None
   \<and> bloom (snd (eblob_index_blocks_destroy bctl)) = None
   \<and> LST_BLOOM_SIZE (stat (snd (eblob_index_blocks_destroy bctl))) = 0
   \<and> LST_INDEX_BLOCKS_SIZE (stat (snd (eblob_index_blocks_destroy bctl))) = 0
   \<and> eblob_index_blocks_destroy (snd (eblob_index_blocks_destroy bctl))
       = eblob_index_blocks_destroy bctl
   \<and> (snd (eblob_index_blocks_destroy bctl))
         \<lparr>index_blocks := index_blocks bctl, bloom := bloom bctl,
          stat := (stat (snd (eblob_index_blocks_destroy bctl)))
                    \<lparr>LST_BLOOM_SIZE := LST_BLOOM_SIZE (stat bctl),
                     LST_INDEX_BLOCKS_SIZE := LST_INDEX_BLOCKS_SIZE (stat bctl)\<rparr>\<rparr> = bctl
   \<and> (index_blocks bctl = None \<and> bloom bctl = None \<and> LST_BLOOM_SIZE (stat bctl) = 0
        \<and> LST_INDEX_BLOCKS_SIZE (stat bctl) = 0
        \<longrightarrow> eblob_index_blocks_destroy bctl = (0, bctl))
   \<and> eblob_index_blocks_destroy (snd (eblob_index_blocks_destroy bctl))
       = (0, snd (eblob_index_blocks_destroy bctl))"
  by (simp add: eblob_index_blocks_destroy_def)

theorem eblob_index_blocks_destroy_idempotent_witness:
  "index_blocks (ex_bctl 0 []) = None \<and> bloom (ex_bctl 0 []) = None
   \<and> LST_BLOOM_SIZE (stat (ex_bctl 0 [])) = 0
   \<and> LST_INDEX_BLOCKS_SIZE (stat (ex_bctl 0 [])) = 0
   \<and> eblob_index_blocks_destroy (ex_bctl 0 []) = (0, ex_bctl 0 [])"
  using eblob_index_blocks_destroy_idempotent[of "ex_bctl 0 []"]
  by (simp add: ex_bctl_def zero_stat_def)

subsection \<open>The number of hash functions\<close>

lemma floor_times_069: "\<lfloor>real n * 0.69\<rfloor> = int (n * 69 div 100)"
proof -
  have "real n * 0.69 = real (n * 69) / real 100" by simp
  then show ?thesis by (simp only: floor_divide_of_nat_eq)
qed

lemma records_of_msize: "msize m div hdr_size = length (mdata m)"
  by (simp add: msize_def hdr_size_def)

text \<open>
  C8, as stated, fails: the conversion to \<^verbatim>\<open>uint8_t\<close> drops the fraction, it does not
  round. With one record and a filter of one byte (the size \<^verbatim>\<open>eblob_bloom_size\<close>
  computes for blocks of four records and eight Bloom bits per block) there are 8 bits
  per key, 8 * 0.69 = 5.52, the code returns 5 and the formula with rounding gives 6.
\<close>

theorem eblob_bloom_func_num_round_counterexample:
  "eblob_bloom_size c8_cfg (ex_bctl 0 [live_dc 1 0]) = Inr 1
   \<and> eblob_bloom_func_num c8_bctl = Inr 5
   \<and> spec_bloom_func_num (bloom_size c8_bctl) (length (mdata (sort_mfd c8_bctl))) = 6"
proof -
  have "eblob_bloom_size c8_cfg (ex_bctl 0 [live_dc 1 0]) = Inr 1"
    by (simp add: eblob_bloom_size_def c8_cfg_def ex_bctl_def records_of_msize)
  moreover have "eblob_bloom_func_num c8_bctl = Inr 5"
    by (simp add: eblob_bloom_func_num_def c8_bctl_def ex_bctl_def records_of_msize)
  moreover have "spec_bloom_func_num (bloom_size c8_bctl) (length (mdata (sort_mfd c8_bctl))) = 6"
    by (simp add: spec_bloom_func_num_def c8_bctl_def ex_bctl_def round_def)
  ultimately show ?thesis by simp
qed

text \<open>
  C8, amended. For a base with at least one record \<^verbatim>\<open>eblob_bloom_func_num\<close> returns a
  count between 1 and 20, and that count is the clamp to [1, 20] of the product
  \<open>bits_per_key * 0.69\<close> with its fraction dropped, where \<open>bits_per_key\<close> is the integer
  quotient of \<open>8 * bloom_size\<close> by the number of records, whenever that truncated
  product fits the eight bits of \<^verbatim>\<open>func_num\<close>.
\<close>

theorem eblob_bloom_func_num_truncates:
  assumes "0 < length (mdata (sort_mfd bctl))"
  shows "\<exists>k. eblob_bloom_func_num bctl = Inr k \<and> 1 \<le> k \<and> k \<le> 20
           \<and> (\<lfloor>real (8 * bloom_size bctl div length (mdata (sort_mfd bctl))) * 0.69\<rfloor> < 256
                \<longrightarrow> int k = trunc_bloom_func_num (bloom_size bctl)
                                (length (mdata (sort_mfd bctl))))"
proof -
  define n where "n = length (mdata (sort_mfd bctl))"
  define raw where "raw = (8 * bloom_size bctl div n) * 69 div 100"
  have fl: "\<lfloor>real (8 * bloom_size bctl div n) * 0.69\<rfloor> = int raw"
    unfolding raw_def by (rule floor_times_069)
  have val: "eblob_bloom_func_num bctl =
               Inr (if raw mod 256 = 0 then 1 else if raw mod 256 > 20 then 20 else raw mod 256)"
    using assms by (simp add: eblob_bloom_func_num_def records_of_msize Let_def n_def raw_def)
  have small: "raw < 256 \<Longrightarrow> raw mod 256 = raw" by simp
  show ?thesis
    unfolding val n_def[symmetric] fl trunc_bloom_func_num_def
    by (auto simp: small)
qed

theorem eblob_bloom_func_num_truncates_witness:
  "0 < length (mdata (sort_mfd c8_bctl))
   \<and> eblob_bloom_func_num c8_bctl = Inr 5
   \<and> trunc_bloom_func_num (bloom_size c8_bctl) (length (mdata (sort_mfd c8_bctl))) = 5"
proof -
  have pos: "0 < length (mdata (sort_mfd c8_bctl))"
    by (simp add: c8_bctl_def ex_bctl_def)
  have val: "eblob_bloom_func_num c8_bctl = Inr 5"
    by (simp add: eblob_bloom_func_num_def c8_bctl_def ex_bctl_def records_of_msize)
  have fits: "\<lfloor>real (8 * bloom_size c8_bctl div length (mdata (sort_mfd c8_bctl))) * 0.69\<rfloor> < 256"
    by (simp add: c8_bctl_def ex_bctl_def)
  from eblob_bloom_func_num_truncates[OF pos] val fits
  have "trunc_bloom_func_num (bloom_size c8_bctl) (length (mdata (sort_mfd c8_bctl))) = 5"
    by auto
  with pos val show ?thesis by simp
qed

subsection \<open>Failures while the block table is built\<close>

text \<open>
  C2. When the allocation of the Bloom filter fails, \<^verbatim>\<open>err = -err\<close> negates the
  initial 0 and \<^verbatim>\<open>eblob_index_blocks_fill\<close> returns 0, the value of success. When the
  allocation of the block table fails it returns \<^verbatim>\<open>-ENOMEM\<close> through
  \<^verbatim>\<open>err_out_exit\<close>, past the call of \<^verbatim>\<open>eblob_index_blocks_destroy\<close>: the Bloom filter
  and its size statistic stay set.
\<close>

theorem eblob_index_blocks_fill_alloc_failure:
  "(case eblob_index_blocks_fill (ex_env\<lparr>calloc_bloom_ok := False\<rparr>) ex_cfg
           (ex_bctl 0 [live_dc 1 0]) of
      Inl t \<Rightarrow> False
    | Inr (err, b) \<Rightarrow> err = 0 \<and> bloom b = None \<and> index_blocks b = None)
   \<and> (case eblob_index_blocks_fill (ex_env\<lparr>calloc_blocks_ok := False\<rparr>) ex_cfg
             (ex_bctl 0 [live_dc 1 0]) of
        Inl t \<Rightarrow> False
      | Inr (err, b) \<Rightarrow> err = - ENOMEM \<and> index_blocks b = None
                        \<and> bloom b = Some (replicate 128 False)
                        \<and> LST_BLOOM_SIZE (stat b) = 16)"
  by code_simp

text \<open>
  C3. The test for the last record of a block is \<^verbatim>\<open>i == index_block_size - 1\<close>, the last
  slot of a full block. In the final block of an index whose length is not a multiple
  of the block size the last record sits in an earlier slot: when it fails the check it
  is counted and skipped, the build returns 0, and the end key of the block is the key
  of the failed record.
\<close>

theorem eblob_index_blocks_fill_corrupt_last:
  "check_record ex_env c3_bctl (mdata (sort_mfd c3_bctl) ! 5) \<noteq> 0
   \<and> (case eblob_index_blocks_fill ex_env ex_cfg c3_bctl of
        Inl t \<Rightarrow> False
      | Inr (err, b) \<Rightarrow>
          err = 0
          \<and> LST_INDEX_CORRUPTED_ENTRIES (stat b) = 1
          \<and> index_blocks b =
              Some [\<lparr>start_key = [1], end_key = [4], start_offset = 0, end_offset = 384\<rparr>,
                    \<lparr>start_key = [5], end_key = [6], start_offset = 384, end_offset = 576\<rparr>])"
  by code_simp

text \<open>
  The limit is compared with the count before the increment
  (\<^verbatim>\<open>err_count++ > EBLOB_BLOB_INDEX_CORRUPT_MAX\<close>): the failed record that brings the
  count to 101 is still skipped.
\<close>

lemma fill_body_tolerates_101:
  assumes "pread_fault E (offset s) = None"
    and "check_record E (fs_bctl s) (mdata (sort_mfd (fs_bctl s)) ! (offset s div hdr_size)) \<noteq> 0"
    and "err_count s = 100" and "0 < i" and "i \<noteq> index_block_size cfg - 1"
  shows "\<exists>s'. fill_body E cfg i s = Inr s' \<and> err_count s' = 101
              \<and> offset s' = offset s + hdr_size"
  using assms by (simp add: fill_body_def Let_def EBLOB_BLOB_INDEX_CORRUPT_MAX_def)

subsection \<open>The retry budget of the lookup\<close>

text \<open>
  C9. \<^verbatim>\<open>tries++ > max_tries\<close> compares the count of the restarts already made. With a
  newest base that stays invalidated the lookup traverses twelve times, restarting
  eleven times, before it returns \<^verbatim>\<open>-EDEADLK\<close>; and when the base is sound again
  after eleven restarts the lookup still succeeds.
\<close>

theorem eblob_disk_index_lookup_retries:
  "eblob_disk_index_lookup ex_env ex_cfg (\<lambda>n. [ex_older\<lparr>index_fd := - 1\<rparr>]) [3]
     = Inr (- EDEADLK, None, zero_search_stat\<lparr>loops := 12\<rparr>)
   \<and> (case eblob_disk_index_lookup ex_env ex_cfg
             (\<lambda>n. if n < 11 then [ex_older\<lparr>index_fd := - 1\<rparr>] else [ex_older]) [3] of
        Inl t \<Rightarrow> False
      | Inr (err, rctl, st) \<Rightarrow> err = 0 \<and> loops st = 12
                              \<and> map_option data_offset rctl = Some 200)"
  by code_simp

subsection \<open>The linear expansion after the hit\<close>

lemma sort_eq_key: "eblob_disk_control_sort a b = 0 \<longleftrightarrow> key a = key b"
  by (simp add: eblob_disk_control_sort_def eblob_id_cmp_eq)

lemma scan_forward_find:
  "fst (scan_forward ds cb dc h st) =
     find (\<lambda>j. cb (ds ! j) dc) (takeWhile (\<lambda>j. key (ds ! j) = key dc) [h..<length ds])"
proof (induction ds cb dc h st rule: scan_forward.induct)
  case (1 ds cb dc h st)
  show ?case
  proof (cases "h < length ds \<and> eblob_disk_control_sort (ds ! h) dc = 0")
    case True
    then have up: "[h..<length ds] = h # [h + 1..<length ds]"
      by (simp add: upt_conv_Cons)
    show ?thesis
    proof (cases "cb (ds ! h) dc")
      case True
      with \<open>h < length ds \<and> _\<close> show ?thesis
        by (subst scan_forward.simps) (simp add: up sort_eq_key)
    next
      case False
      with \<open>h < length ds \<and> _\<close> "1.IH" show ?thesis
        by (subst scan_forward.simps) (simp add: up sort_eq_key)
    qed
  next
    case False
    show ?thesis
    proof (cases "h < length ds")
      case True
      with False have ne: "key (ds ! h) \<noteq> key dc" by (simp add: sort_eq_key)
      from True have up: "[h..<length ds] = h # [h + 1..<length ds]"
        by (simp add: upt_conv_Cons)
      show ?thesis
        by (subst scan_forward.simps) (simp add: up ne sort_eq_key)
    next
      case False
      then show ?thesis
        by (subst scan_forward.simps) simp
    qed
  qed
qed

lemma scan_backward_find:
  "fst (scan_backward ds cb dc (int n - 1) st) =
     find (\<lambda>j. cb (ds ! j) dc) (takeWhile (\<lambda>j. key (ds ! j) = key dc) (rev [0..<n]))"
proof (induction n arbitrary: st)
  case 0
  show ?case by (subst scan_backward.simps) simp
next
  case (Suc n)
  have e: "int (Suc n) - 1 = int n" by simp
  show ?case
    unfolding e
    by (subst scan_backward.simps) (simp add: Let_def sort_eq_key Suc)
qed

lemma expand_hit_spec: "fst (expand_hit ds cb dc h st) = spec_expand ds cb dc h"
proof (cases "scan_forward ds cb dc h st")
  case (Pair r st1)
  with scan_forward_find[of ds cb dc h st]
  have r: "r = find (\<lambda>j. cb (ds ! j) dc) (takeWhile (\<lambda>j. key (ds ! j) = key dc) [h..<length ds])"
    by simp
  show ?thesis
  proof (cases r)
    case None
    with Pair r scan_backward_find[of ds cb dc h st1] show ?thesis
      by (simp add: expand_hit_def spec_expand_def)
  next
    case (Some j)
    with r have "find (\<lambda>j. cb (ds ! j) dc)
                   (takeWhile (\<lambda>j. key (ds ! j) = key dc) [h..<length ds]) = Some j"
      by simp
    with Pair Some show ?thesis
      by (simp add: expand_hit_def spec_expand_def)
  qed
qed






text \<open>What the searcher returns when the block search and the binary search both hit.\<close>

lemma eblob_find_on_disk_hit:
  assumes blk: "eblob_index_blocks_search_nolock E bctl dc
                  (st\<lparr>search_on_disk := search_on_disk st + 1\<rparr>) = (Some t, st1)"
    and rest: "rest = u64_sub (msize (sort_mfd bctl)) (start_offset (blocks_of bctl ! t))"
    and a1: "0 < rest div hdr_size" and a2: "rest mod hdr_size = 0"
    and inside: "start_offset (blocks_of bctl ! t) div hdr_size
                   + min (rest div hdr_size) (index_block_size cfg)
                 \<le> length (mdata (sort_mfd bctl))"
    and hit: "bsearch (eblob_disk_control_sort dc)
                (drop (start_offset (blocks_of bctl ! t) div hdr_size) (mdata (sort_mfd bctl)))
                (min (rest div hdr_size) (index_block_size cfg)) = Some h"
  shows "eblob_find_on_disk E cfg bctl dc callback st =
           Inr (expand_hit (mdata (sort_mfd bctl)) callback dc
                  (start_offset (blocks_of bctl ! t) div hdr_size + h)
                  (st1\<lparr>bsearch_reached := bsearch_reached st1 + 1,
                       bsearch_found := bsearch_found st1 + 1\<rparr>))"
proof (cases "index_block_size cfg < rest div hdr_size")
  case True
  then have "min (rest div hdr_size) (index_block_size cfg) = index_block_size cfg" by simp
  with blk a1 a2 inside hit True show ?thesis
    by (simp add: eblob_find_on_disk_def Let_def rest[symmetric])
next
  case False
  then have "min (rest div hdr_size) (index_block_size cfg) = rest div hdr_size" by simp
  with blk a1 a2 inside hit False show ?thesis
    by (simp add: eblob_find_on_disk_def Let_def rest[symmetric])
qed

text \<open>
  C5. When the block search selects a block and the binary search inside the block
  returns a hit, \<^verbatim>\<open>eblob_find_on_disk\<close> returns the first record the callback accepts
  in the run of equal keys forward from the hit; when that run has none, the first
  accepted in the run of equal keys backward from the record before the hit; and a
  miss when both runs have none.
\<close>

theorem eblob_find_on_disk_expansion:
  assumes "eblob_index_blocks_search_nolock E bctl dc
             (st\<lparr>search_on_disk := search_on_disk st + 1\<rparr>) = (Some t, st1)"
    and "rest = u64_sub (msize (sort_mfd bctl)) (start_offset (blocks_of bctl ! t))"
    and "0 < rest div hdr_size" and "rest mod hdr_size = 0"
    and "start_offset (blocks_of bctl ! t) div hdr_size
           + min (rest div hdr_size) (index_block_size cfg)
         \<le> length (mdata (sort_mfd bctl))"
    and "bsearch (eblob_disk_control_sort dc)
           (drop (start_offset (blocks_of bctl ! t) div hdr_size) (mdata (sort_mfd bctl)))
           (min (rest div hdr_size) (index_block_size cfg)) = Some h"
  shows "map_sum id fst (eblob_find_on_disk E cfg bctl dc callback st) =
           Inr (spec_expand (mdata (sort_mfd bctl)) callback dc
                  (start_offset (blocks_of bctl ! t) div hdr_size + h))"
  by (simp add: eblob_find_on_disk_hit[OF assms] expand_hit_spec)



theorem eblob_find_on_disk_expansion_witness:
  "eblob_index_blocks_search_nolock ex_env ex_run (zero_dc\<lparr>key := [7]\<rparr>)
     (zero_search_stat\<lparr>search_on_disk := search_on_disk zero_search_stat + 1\<rparr>)
     = (Some 0, zero_search_stat\<lparr>search_on_disk := 1, found_index_block := 1\<rparr>)
   \<and> bsearch (eblob_disk_control_sort (zero_dc\<lparr>key := [7]\<rparr>))
        (mdata (sort_mfd ex_run)) 4 = Some 2
   \<and> map_sum id fst (eblob_find_on_disk ex_env ex_cfg ex_run (zero_dc\<lparr>key := [7]\<rparr>)
                        eblob_find_non_removed_callback zero_search_stat) = Inr (Some 3)"
proof -
  let ?dc = "zero_dc\<lparr>key := [7]\<rparr>"
  have blk: "eblob_index_blocks_search_nolock ex_env ex_run ?dc
               (zero_search_stat\<lparr>search_on_disk := search_on_disk zero_search_stat + 1\<rparr>)
             = (Some 0, zero_search_stat\<lparr>search_on_disk := 1, found_index_block := 1\<rparr>)"
    by code_simp
  have so: "start_offset (blocks_of ex_run ! 0) div hdr_size = 0"
    by code_simp
  have rest: "u64_sub (msize (sort_mfd ex_run)) (start_offset (blocks_of ex_run ! 0)) = 384"
    by code_simp
  have len: "length (mdata (sort_mfd ex_run)) = 4"
    by code_simp
  have d: "384 div hdr_size = 4" "384 mod hdr_size = 0"
    by (simp_all add: hdr_size_def)
  have ibs: "index_block_size ex_cfg = 4"
    by (simp add: ex_cfg_def)
  have hit: "bsearch (eblob_disk_control_sort ?dc) (mdata (sort_mfd ex_run)) 4 = Some 2"
    by code_simp
  have sp: "spec_expand (mdata (sort_mfd ex_run)) eblob_find_non_removed_callback ?dc 2 = Some 3"
    by code_simp
  have "map_sum id fst (eblob_find_on_disk ex_env ex_cfg ex_run ?dc
                          eblob_find_non_removed_callback zero_search_stat)
        = Inr (spec_expand (mdata (sort_mfd ex_run)) eblob_find_non_removed_callback ?dc
                 (start_offset (blocks_of ex_run ! 0) div hdr_size + 2))"
    by (rule eblob_find_on_disk_expansion[where rest = 384 and t = 0, OF blk])
       (simp_all add: rest so len ibs d hit)
  then have "map_sum id fst (eblob_find_on_disk ex_env ex_cfg ex_run ?dc
                               eblob_find_non_removed_callback zero_search_stat)
             = Inr (Some 3)"
    by (simp only: so add_0 sp)
  with blk hit show ?thesis by blast
qed

subsection \<open>The Bloom filter in the search\<close>

text \<open>
  C4, amended. \<^verbatim>\<open>eblob_index_blocks_search_nolock\<close> asks the Bloom filter first, with
  the base and the key alone, before any search of the block ranges. On a negative
  answer \<^verbatim>\<open>eblob_find_on_disk\<close> returns a miss having counted only \<^verbatim>\<open>search_on_disk\<close>
  and \<^verbatim>\<open>bloom_null\<close>: neither the binary search over the block ranges nor the one
  inside a block is attempted. On a positive answer the block is the one the binary
  search over the block ranges finds.
\<close>

theorem eblob_find_on_disk_bloom_first:
  "(\<not> eblob_bloom_get E bctl (key dc) \<longrightarrow>
      eblob_find_on_disk E cfg bctl dc callback st =
        Inr (None, st\<lparr>search_on_disk := search_on_disk st + 1,
                       bloom_null := bloom_null st + 1\<rparr>))
   \<and> (eblob_bloom_get E bctl (key dc) \<longrightarrow>
        fst (eblob_index_blocks_search_nolock E bctl dc st) =
          fst (eblob_index_blocks_search_nolock_bsearch_nobloom bctl dc st))"
  by (simp add: eblob_find_on_disk_def eblob_index_blocks_search_nolock_def Let_def
           split: prod.splits option.splits)

text \<open>
  C4, as stated, fails: the filter is not asked after a block has been selected. For
  the key 32 (hex), which lies in the range of the only block, the filter answers
  absent and the search stops before the block search has run
  (\<^verbatim>\<open>found_index_block\<close> stays 0); for the key C8, which no block range contains, the
  filter is asked all the same (\<^verbatim>\<open>bloom_null\<close> is counted, \<^verbatim>\<open>no_block\<close> is not).
\<close>

theorem eblob_find_on_disk_bloom_per_block_counterexample:
  "eblob_find_on_disk ex_env ex_cfg ex_wide (zero_dc\<lparr>key := [50]\<rparr>)
       eblob_find_non_removed_callback zero_search_stat
     = Inr (None, zero_search_stat\<lparr>search_on_disk := 1, bloom_null := 1\<rparr>)
   \<and> fst (eblob_index_blocks_search_nolock_bsearch_nobloom ex_wide (zero_dc\<lparr>key := [50]\<rparr>)
            zero_search_stat) = Some 0
   \<and> eblob_find_on_disk ex_env ex_cfg ex_wide (zero_dc\<lparr>key := [200]\<rparr>)
         eblob_find_non_removed_callback zero_search_stat
       = Inr (None, zero_search_stat\<lparr>search_on_disk := 1, bloom_null := 1\<rparr>)
   \<and> fst (eblob_index_blocks_search_nolock_bsearch_nobloom ex_wide (zero_dc\<lparr>key := [200]\<rparr>)
            zero_search_stat) = None"
  by code_simp

theorem eblob_find_on_disk_bloom_first_witness:
  "\<not> eblob_bloom_get ex_env ex_wide (key (zero_dc\<lparr>key := [50]\<rparr>))
   \<and> eblob_find_on_disk ex_env ex_cfg ex_wide (zero_dc\<lparr>key := [50]\<rparr>)
         eblob_find_non_removed_callback zero_search_stat
       = Inr (None, zero_search_stat\<lparr>search_on_disk := search_on_disk zero_search_stat + 1,
                                      bloom_null := bloom_null zero_search_stat + 1\<rparr>)
   \<and> eblob_bloom_get ex_env ex_wide (key (zero_dc\<lparr>key := [3]\<rparr>))
   \<and> fst (eblob_index_blocks_search_nolock ex_env ex_wide (zero_dc\<lparr>key := [3]\<rparr>)
            zero_search_stat) = Some 0"
proof -
  have neg: "\<not> eblob_bloom_get ex_env ex_wide (key (zero_dc\<lparr>key := [50]\<rparr>))"
    by code_simp
  have pos: "eblob_bloom_get ex_env ex_wide (key (zero_dc\<lparr>key := [3]\<rparr>))"
    by code_simp
  have nb: "fst (eblob_index_blocks_search_nolock_bsearch_nobloom ex_wide (zero_dc\<lparr>key := [3]\<rparr>)
                   zero_search_stat) = Some 0"
    by code_simp
  from neg pos nb
    eblob_find_on_disk_bloom_first[of ex_env ex_wide "zero_dc\<lparr>key := [50]\<rparr>" ex_cfg
      eblob_find_non_removed_callback zero_search_stat]
    eblob_find_on_disk_bloom_first[of ex_env ex_wide "zero_dc\<lparr>key := [3]\<rparr>" ex_cfg
      eblob_find_non_removed_callback zero_search_stat]
  show ?thesis by simp
qed


subsection \<open>The sorted index\<close>

lemma eblob_id_cmp_less_trans:
  assumes "eblob_id_cmp a b < 0" and "eblob_id_cmp b c \<le> 0"
  shows "eblob_id_cmp a c < 0"
proof -
  from assms have le: "eblob_id_cmp a c \<le> 0"
    using eblob_id_cmp_trans[of a b c] by simp
  have "eblob_id_cmp a c \<noteq> 0"
  proof
    assume "eblob_id_cmp a c = 0"
    then have "a = c" by (simp add: eblob_id_cmp_eq)
    with assms(1) eblob_id_cmp_sym[of b c] assms(2) show False by simp
  qed
  with le show ?thesis by simp
qed

lemma sort_with_flags_le:
  "eblob_disk_control_sort_with_flags a b \<le> 0 \<longleftrightarrow>
     eblob_id_cmp (key a) (key b) < 0
     \<or> (key a = key b \<and> (is_removed a \<or> \<not> is_removed b))"
  using eblob_id_cmp_eq[of "key a" "key b"]
  by (auto simp: eblob_disk_control_sort_with_flags_def Let_def is_removed_def)

lemma sort_with_flags_total:
  "\<not> eblob_disk_control_sort_with_flags a b \<le> 0 \<Longrightarrow>
     eblob_disk_control_sort_with_flags b a \<le> 0"
  using eblob_id_cmp_sym[of "key a" "key b"] eblob_id_cmp_eq[of "key b" "key a"]
  by (auto simp: sort_with_flags_le)

lemma sort_with_flags_trans:
  assumes "eblob_disk_control_sort_with_flags a b \<le> 0"
    and "eblob_disk_control_sort_with_flags b c \<le> 0"
  shows "eblob_disk_control_sort_with_flags a c \<le> 0"
proof -
  consider (ll) "eblob_id_cmp (key a) (key b) < 0"
    | (el) "key a = key b" "eblob_id_cmp (key b) (key c) < 0"
    | (ee) "key a = key b" "key b = key c" "is_removed a \<or> \<not> is_removed b"
           "is_removed b \<or> \<not> is_removed c"
    using assms by (auto simp: sort_with_flags_le)
  then show ?thesis
  proof cases
    case ll
    from assms(2) have "eblob_id_cmp (key b) (key c) \<le> 0"
      by (auto simp: sort_with_flags_le eblob_id_cmp_refl)
    from eblob_id_cmp_less_trans[OF ll this] show ?thesis
      by (simp add: sort_with_flags_le)
  next
    case el
    then show ?thesis by (simp add: sort_with_flags_le)
  next
    case ee
    then show ?thesis by (auto simp: sort_with_flags_le)
  qed
qed

lemma mset_insert_cmp: "mset (insert_cmp cmp x xs) = add_mset x (mset xs)"
  by (induction xs) auto

lemma mset_qsort: "mset (qsort cmp xs) = mset xs"
  by (induction xs) (auto simp: qsort_def mset_insert_cmp)

lemma set_insert_cmp: "set (insert_cmp cmp x xs) = insert x (set xs)"
  using mset_insert_cmp[of cmp x xs, THEN arg_cong, of set_mset] by simp

lemma sorted_insert_cmp:
  assumes total: "\<And>a b. \<not> cmp a b \<le> 0 \<Longrightarrow> cmp b a \<le> 0"
    and trans: "\<And>a b c. cmp a b \<le> 0 \<Longrightarrow> cmp b c \<le> 0 \<Longrightarrow> cmp a c \<le> 0"
    and srt: "sorted_wrt (\<lambda>a b. cmp a b \<le> (0::int)) xs"
  shows "sorted_wrt (\<lambda>a b. cmp a b \<le> 0) (insert_cmp cmp x xs)"
  using srt
proof (induction xs)
  case Nil
  then show ?case by simp
next
  case (Cons y ys)
  show ?case
  proof (cases "cmp x y \<le> 0")
    case True
    with Cons.prems trans show ?thesis by auto
  next
    case False
    with Cons total show ?thesis by (auto simp: set_insert_cmp)
  qed
qed

lemma sorted_qsort:
  assumes "\<And>a b. \<not> cmp a b \<le> 0 \<Longrightarrow> cmp b a \<le> 0"
    and "\<And>a b c. cmp a b \<le> 0 \<Longrightarrow> cmp b c \<le> 0 \<Longrightarrow> cmp a c \<le> 0"
  shows "sorted_wrt (\<lambda>a b. cmp a b \<le> (0::int)) (qsort cmp xs)"
proof (induction xs)
  case Nil
  show ?case by (simp add: qsort_def)
next
  case (Cons x xs)
  have "qsort cmp (x # xs) = insert_cmp cmp x (qsort cmp xs)"
    by (simp add: qsort_def)
  with sorted_insert_cmp[OF assms Cons] show ?case by simp
qed

lemma sorted_index_qsort:
  "sorted_index (qsort eblob_disk_control_sort_with_flags xs)"
proof -
  let ?ds = "qsort eblob_disk_control_sort_with_flags xs"
  have s: "sorted_wrt (\<lambda>a b. eblob_disk_control_sort_with_flags a b \<le> 0) ?ds"
    by (rule sorted_qsort[OF sort_with_flags_total sort_with_flags_trans])
  have k: "sorted_wrt (\<lambda>a b. eblob_id_cmp (key a) (key b) \<le> 0) ?ds"
    by (rule sorted_wrt_mono_rel[OF _ s]) (auto simp: sort_with_flags_le eblob_id_cmp_refl)
  have "is_removed (?ds ! i)"
    if "i < j" "j < length ?ds" "key (?ds ! i) = key (?ds ! j)" "is_removed (?ds ! j)" for i j
  proof -
    from s that(1,2) have "eblob_disk_control_sort_with_flags (?ds ! i) (?ds ! j) \<le> 0"
      by (simp add: sorted_wrt_iff_nth_less)
    with that(3,4) show ?thesis by (auto simp: sort_with_flags_le eblob_id_cmp_refl)
  qed
  with k show ?thesis unfolding sorted_index_def by blast
qed

text \<open>
  C6. When \<^verbatim>\<open>eblob_generate_sorted_index\<close> returns 0 the sorted mapping of the base is a
  permutation of the index file, its keys never decrease, and among records of one key
  no live record stands before a tombstone. (With an empty index file the function
  returns 0 through its error path and publishes nothing: the statement then is about
  the mapping the base had, which is empty for a base that was not sorted before.)
\<close>

theorem eblob_generate_sorted_index_sorted:
  assumes "eblob_generate_sorted_index G bctl = (0, bctl')"
    and "index_file G \<noteq> [] \<or> mdata (sort_mfd bctl) = []"
  shows "mset (mdata (sort_mfd bctl')) = mset (index_file G)
         \<and> sorted_index (mdata (sort_mfd bctl'))"
proof (cases "index_file G = []")
  case True
  with assms have "bctl' = bctl"
    by (auto simp: eblob_generate_sorted_index_def eblob_get_actual_size_def Let_def ENOMEM_def
             split: if_splits)
  with True assms(2) show ?thesis by (simp add: sorted_index_def)
next
  case False
  have "nat (int hdr_size * int n) div hdr_size = n" for n
  proof -
    have "int hdr_size * int n = int (hdr_size * n)" by simp
    then have "nat (int hdr_size * int n) = hdr_size * n" by (simp only: nat_int)
    then show ?thesis by (simp add: hdr_size_def)
  qed
  then have tk: "take (nat (int hdr_size * int (length (index_file G))) div hdr_size)
                   (index_file G) = index_file G"
    by simp
  have pos: "hdr_size \<noteq> 0" by (simp add: hdr_size_def)
  from assms(1) False
  have "mdata (sort_mfd bctl') = qsort eblob_disk_control_sort_with_flags (index_file G)"
    by (auto simp: eblob_generate_sorted_index_def eblob_get_actual_size_def Let_def ENOMEM_def
                   tk pos
             split: if_splits)
  then show ?thesis by (simp add: mset_qsort sorted_index_qsort)
qed

theorem eblob_generate_sorted_index_sorted_witness:
  "eblob_generate_sorted_index ex_gen (ex_bctl 0 []) =
     (0, (ex_bctl 0 [])\<lparr>sort_mfd := \<lparr>fd = 5, mdata = [live_dc 1 2, removed_dc 3 1,
                                                      live_dc 3 0]\<rparr>\<rparr>)
   \<and> mset [live_dc 1 2, removed_dc 3 1, live_dc 3 0] = mset (index_file ex_gen)
   \<and> sorted_index [live_dc 1 2, removed_dc 3 1, live_dc 3 0]"
proof -
  have run: "eblob_generate_sorted_index ex_gen (ex_bctl 0 []) =
               (0, (ex_bctl 0 [])\<lparr>sort_mfd := \<lparr>fd = 5, mdata = [live_dc 1 2, removed_dc 3 1,
                                                                live_dc 3 0]\<rparr>\<rparr>)"
    by code_simp
  have ne: "index_file ex_gen \<noteq> [] \<or> mdata (sort_mfd (ex_bctl 0 [])) = []"
    by (simp add: ex_gen_def)
  from eblob_generate_sorted_index_sorted[OF run ne] run show ?thesis by simp
qed

subsection \<open>Range containment of the block table\<close>

lemma fill_body_effect:
  assumes "fill_body E cfg i s = Inr s'"
  shows "cur_dc s' = mdata (sort_mfd (fs_bctl s)) ! (offset s div hdr_size)"
    and "block s' = block s"
    and "index_blocks (fs_bctl s') =
           (if i = 0
            then map_option (\<lambda>bs. bs[block s := (bs ! block s)
                     \<lparr>start_key := key (mdata (sort_mfd (fs_bctl s)) ! (offset s div hdr_size))\<rparr>])
                   (index_blocks (fs_bctl s))
            else index_blocks (fs_bctl s))"
  using assms
  by (auto simp: fill_body_def Let_def stat_inc_corrupted_def block_upd_def eblob_bloom_set_def
           split: option.splits if_splits)

lemma fill_body_abort:
  "fill_body E cfg i s = Inl (e, b) \<Longrightarrow> bloom b = None"
  by (auto simp: fill_body_def Let_def err_out_drop_tree_def eblob_index_blocks_destroy_def
           split: option.splits if_splits)

lemma fill_for_abort:
  "fill_for E cfg i s = Inl (e, b) \<Longrightarrow> bloom b = None"
proof (induction E cfg i s rule: fill_for.induct)
  case (1 E cfg i s)
  from "1.prems" have c: "i < index_block_size cfg \<and> offset s < msize (sort_mfd (fs_bctl s))"
    by (subst (asm) fill_for.simps) (simp split: if_splits)
  show ?case
  proof (cases "fill_body E cfg i s")
    case (Inl r)
    with "1.prems" c have "r = (e, b)" by (subst (asm) fill_for.simps) simp
    with Inl show ?thesis by (simp add: fill_body_abort)
  next
    case (Inr s1)
    with "1.prems" c have "fill_for E cfg (i + 1) s1 = Inl (e, b)"
      by (subst (asm) fill_for.simps) simp
    from "1.IH"[OF c Inr this] show ?thesis .
  qed
qed

lemma fill_for_later:
  "fill_for E cfg i s = Inr s' \<Longrightarrow> 0 < i \<Longrightarrow>
     index_blocks (fs_bctl s') = index_blocks (fs_bctl s) \<and> block s' = block s"
proof (induction E cfg i s rule: fill_for.induct)
  case (1 E cfg i s)
  show ?case
  proof (cases "i < index_block_size cfg \<and> offset s < msize (sort_mfd (fs_bctl s))")
    case True
    with "1.prems" obtain s1 where b: "fill_body E cfg i s = Inr s1"
      and r: "fill_for E cfg (i + 1) s1 = Inr s'"
      by (subst (asm) fill_for.simps) (auto split: sum.splits)
    from "1.IH"[OF True b r] fill_body_effect(2,3)[OF b] "1.prems"(2) show ?thesis by simp
  next
    case False
    with "1.prems" show ?thesis by (subst (asm) fill_for.simps) simp
  qed
qed

lemma fill_for_cur_dc:
  "fill_for E cfg i s = Inr s' \<Longrightarrow>
     s' = s \<or> (offset s < offset s'
                \<and> cur_dc s' = mdata (sort_mfd (fs_bctl s)) ! ((offset s' - hdr_size) div hdr_size))"
proof (induction E cfg i s rule: fill_for.induct)
  case (1 E cfg i s)
  show ?case
  proof (cases "i < index_block_size cfg \<and> offset s < msize (sort_mfd (fs_bctl s))")
    case True
    with "1.prems" obtain s1 where b: "fill_body E cfg i s = Inr s1"
      and r: "fill_for E cfg (i + 1) s1 = Inr s'"
      by (subst (asm) fill_for.simps) (auto split: sum.splits)
    from "1.IH"[OF True b r] fill_body_effect(1)[OF b] fill_body_offset[OF b] fill_body_sort[OF b]
    show ?thesis by (auto simp: hdr_size_def)
  next
    case False
    with "1.prems" show ?thesis by (subst (asm) fill_for.simps) simp
  qed
qed

lemma next_record_fits:
  assumes "hdr_size dvd off" and "off < msize m"
  shows "off + hdr_size \<le> msize m"
proof -
  from assms(1) obtain q where q: "off = hdr_size * q" by (auto simp: dvd_def)
  with assms(2) have "q < length (mdata m)" by (simp add: msize_def hdr_size_def)
  then have "hdr_size * (q + 1) \<le> hdr_size * length (mdata m)"
    by (simp add: hdr_size_def)
  with q show ?thesis by (simp add: msize_def)
qed

lemma fill_for_aligned:
  "fill_for E cfg i s = Inr s' \<Longrightarrow> hdr_size dvd offset s \<Longrightarrow>
     offset s \<le> msize (sort_mfd (fs_bctl s)) \<Longrightarrow>
     hdr_size dvd offset s' \<and> offset s' \<le> msize (sort_mfd (fs_bctl s))"
proof (induction E cfg i s rule: fill_for.induct)
  case (1 E cfg i s)
  show ?case
  proof (cases "i < index_block_size cfg \<and> offset s < msize (sort_mfd (fs_bctl s))")
    case True
    with "1.prems" obtain s1 where b: "fill_body E cfg i s = Inr s1"
      and r: "fill_for E cfg (i + 1) s1 = Inr s'"
      by (subst (asm) fill_for.simps) (auto split: sum.splits)
    have d: "hdr_size dvd offset s1"
      using fill_body_offset[OF b] "1.prems"(2) by simp
    have l: "offset s1 \<le> msize (sort_mfd (fs_bctl s1))"
      using fill_body_offset[OF b] fill_body_sort[OF b] next_record_fits[OF "1.prems"(2)] True
      by simp
    from "1.IH"[OF True b r d l] fill_body_sort[OF b] show ?thesis by simp
  next
    case False
    with "1.prems" show ?thesis by (subst (asm) fill_for.simps) simp
  qed
qed

lemma fill_for_first:
  assumes "fill_for E cfg 0 s = Inr s'" and "0 < index_block_size cfg"
    and "offset s < msize (sort_mfd (fs_bctl s))"
  shows "index_blocks (fs_bctl s') =
           map_option (\<lambda>bs. bs[block s := (bs ! block s)
                     \<lparr>start_key := key (mdata (sort_mfd (fs_bctl s)) ! (offset s div hdr_size))\<rparr>])
             (index_blocks (fs_bctl s))"
    and "block s' = block s"
proof -
  from assms obtain s1 where b: "fill_body E cfg 0 s = Inr s1"
    and r: "fill_for E cfg (0 + 1) s1 = Inr s'"
    by (subst (asm) fill_for.simps) (auto split: sum.splits)
  from fill_for_later[OF r] fill_body_effect(2,3)[OF b]
  show "index_blocks (fs_bctl s') =
           map_option (\<lambda>bs. bs[block s := (bs ! block s)
                     \<lparr>start_key := key (mdata (sort_mfd (fs_bctl s)) ! (offset s div hdr_size))\<rparr>])
             (index_blocks (fs_bctl s))"
    and "block s' = block s"
    by simp_all
qed


lemma fill_while_abort:
  "fill_while E cfg s = Inr (Inl (e, b)) \<Longrightarrow> bloom b = None"
proof (induction E cfg s rule: fill_while.induct)
  case (1 E cfg s)
  let ?s0 = "s\<lparr>block := block_id s, block_id := block_id s + 1,
               fs_bctl := block_upd (block_id s) (\<lambda>b. b\<lparr>start_offset := offset s\<rparr>) (fs_bctl s)\<rparr>"
  from "1.prems" have c: "offset s < msize (sort_mfd (fs_bctl s))" "index_block_size cfg \<noteq> 0"
    by (subst (asm) fill_while.simps, simp split: if_splits)+
  show ?case
  proof (cases "fill_for E cfg 0 ?s0")
    case (Inl r)
    with "1.prems" c have "r = (e, b)" by (subst (asm) fill_while.simps) simp
    with Inl show ?thesis by (simp add: fill_for_abort)
  next
    case (Inr s1)
    with "1.prems" c have
      "fill_while E cfg (s1\<lparr>fs_bctl := block_upd (block s1)
                            (\<lambda>b. b\<lparr>end_offset := offset s1, end_key := key (cur_dc s1)\<rparr>)
                            (fs_bctl s1)\<rparr>) = Inr (Inl (e, b))"
      by (subst (asm) fill_while.simps) simp
    from "1.IH"[OF c Inr this] show ?thesis .
  qed
qed

lemma block_contains_zero: "block_contains ds zero_block"
  by (simp add: block_contains_def zero_block_def)

lemma block_contains_new:
  assumes srt: "sorted_wrt (\<lambda>a b. eblob_id_cmp (key a) (key b) \<le> 0) ds"
    and d1: "hdr_size dvd o1" and d2: "hdr_size dvd o2"
    and lt: "o1 < o2" and le: "o2 \<le> hdr_size * length ds"
    and sk: "start_key b = key (ds ! (o1 div hdr_size))"
    and ek: "end_key b = key (ds ! ((o2 - hdr_size) div hdr_size))"
    and so: "start_offset b = o1" and eo: "end_offset b = o2"
  shows "block_contains ds b"
  unfolding block_contains_def
proof (intro allI impI)
  fix j
  assume j: "j < length ds"
    and rng: "start_offset b \<le> hdr_size * j \<and> hdr_size * j < end_offset b"
  from d1 obtain p where p: "o1 = hdr_size * p" by (auto simp: dvd_def)
  from d2 obtain q where q: "o2 = hdr_size * q" by (auto simp: dvd_def)
  have h: "0 < hdr_size" by (simp add: hdr_size_def)
  from p h have pd: "o1 div hdr_size = p" by simp
  from rng so eo p q h have pj: "p \<le> j" and jq: "j < q" by simp_all
  have "hdr_size * q - hdr_size = hdr_size * (q - 1)"
    by (simp add: diff_mult_distrib2)
  with q h have "(o2 - hdr_size) div hdr_size = q - 1"
    by simp
  with jq have qd: "(o2 - hdr_size) div hdr_size = q - 1" and jq': "j \<le> q - 1" by simp_all
  from le q h have "q \<le> length ds" by simp
  with jq have ql: "q - 1 < length ds" by simp
  have nth_le: "eblob_id_cmp (key (ds ! a)) (key (ds ! c)) \<le> 0" if "a \<le> c" "c < length ds" for a c
  proof (cases "a = c")
    case True
    then show ?thesis by (simp add: eblob_id_cmp_refl)
  next
    case False
    with that srt show ?thesis by (simp add: sorted_wrt_iff_nth_less)
  qed
  from nth_le[OF pj j] nth_le[OF jq' ql] sk ek pd qd
  show "eblob_id_cmp (start_key b) (key (ds ! j)) \<le> 0
        \<and> eblob_id_cmp (key (ds ! j)) (end_key b) \<le> 0"
    by simp
qed


lemma fill_while_contains:
  "fill_while E cfg s = Inr (Inr s') \<Longrightarrow>
   sorted_wrt (\<lambda>a b. eblob_id_cmp (key a) (key b) \<le> 0) (mdata (sort_mfd (fs_bctl s))) \<Longrightarrow>
   hdr_size dvd offset s \<Longrightarrow> offset s \<le> msize (sort_mfd (fs_bctl s)) \<Longrightarrow>
   table_contains (mdata (sort_mfd (fs_bctl s))) (fs_bctl s) \<Longrightarrow>
   table_contains (mdata (sort_mfd (fs_bctl s))) (fs_bctl s')"
proof (induction E cfg s rule: fill_while.induct)
  case (1 E cfg s)
  let ?ds = "mdata (sort_mfd (fs_bctl s))"
  let ?s0 = "s\<lparr>block := block_id s, block_id := block_id s + 1,
               fs_bctl := block_upd (block_id s) (\<lambda>b. b\<lparr>start_offset := offset s\<rparr>) (fs_bctl s)\<rparr>"
  show ?case
  proof (cases "offset s < msize (sort_mfd (fs_bctl s))")
    case False
    with "1.prems"(1) have "s' = s" by (subst (asm) fill_while.simps) simp
    with "1.prems"(5) show ?thesis by simp
  next
    case True
    with "1.prems"(1) have ibs: "index_block_size cfg \<noteq> 0"
      by (subst (asm) fill_while.simps) (simp split: if_splits)
    from "1.prems"(1) True ibs obtain s1 where f: "fill_for E cfg 0 ?s0 = Inr s1"
      by (subst (asm) fill_while.simps) (auto split: sum.splits)
    let ?s2 = "s1\<lparr>fs_bctl := block_upd (block s1)
                   (\<lambda>b. b\<lparr>end_offset := offset s1, end_key := key (cur_dc s1)\<rparr>) (fs_bctl s1)\<rparr>"
    from "1.prems"(1) True ibs f have w: "fill_while E cfg ?s2 = Inr (Inr s')"
      by (subst (asm) fill_while.simps) simp
    have srt0: "sort_mfd (fs_bctl ?s0) = sort_mfd (fs_bctl s)"
      by (simp add: block_upd_def)
    have srt1: "sort_mfd (fs_bctl s1) = sort_mfd (fs_bctl s)"
      using fill_for_sort[OF f] srt0 by simp
    have srt2: "sort_mfd (fs_bctl ?s2) = sort_mfd (fs_bctl s)"
      using srt1 by (simp add: block_upd_def)
    have lt0: "offset ?s0 < msize (sort_mfd (fs_bctl ?s0))"
      using True srt0 by simp
    have pos: "0 < index_block_size cfg" using ibs by simp
    have prog: "offset s < offset s1"
      using fill_for_progress[OF f pos lt0] by simp
    have al: "hdr_size dvd offset s1 \<and> offset s1 \<le> msize (sort_mfd (fs_bctl s))"
      using fill_for_aligned[OF f] "1.prems"(3,4) srt0 by simp
    have cd: "cur_dc s1 = ?ds ! ((offset s1 - hdr_size) div hdr_size)"
      using fill_for_cur_dc[OF f] prog srt0 by auto
    have blk1: "block s1 = block_id s"
      using fill_for_first(2)[OF f pos lt0] by simp
    have ib1: "index_blocks (fs_bctl s1) =
                 map_option (\<lambda>bs. bs[block_id s := (bs ! block_id s)
                     \<lparr>start_key := key (?ds ! (offset s div hdr_size))\<rparr>])
                   (index_blocks (fs_bctl ?s0))"
      using fill_for_first(1)[OF f pos lt0] srt0 by simp
    have tc2: "table_contains ?ds (fs_bctl ?s2)"
      unfolding table_contains_def
    proof (intro allI impI ballI)
      fix bs2 b
      assume some: "index_blocks (fs_bctl ?s2) = Some bs2" and mem: "b \<in> set bs2"
      from some obtain bs where bs: "index_blocks (fs_bctl s) = Some bs"
        by (auto simp: block_upd_def ib1)
      let ?n = "block_id s"
      let ?B = "(bs ! ?n)\<lparr>start_offset := offset s,
                            start_key := key (?ds ! (offset s div hdr_size)),
                            end_offset := offset s1,
                            end_key := key (?ds ! ((offset s1 - hdr_size) div hdr_size))\<rparr>"
      have bs2: "bs2 = (if ?n < length bs then bs[?n := ?B] else bs)"
      proof (cases "?n < length bs")
        case True
        with some bs show ?thesis by (auto simp: block_upd_def ib1 blk1 cd)
      next
        case False
        then have "bs[?n := x] = bs" for x by (simp add: list_update_beyond)
        with some bs False show ?thesis by (auto simp: block_upd_def ib1 blk1 cd)
      qed
      have old: "\<forall>x\<in>set bs. block_contains ?ds x"
        using "1.prems"(5) bs by (simp add: table_contains_def)
      have new: "block_contains ?ds ?B"
        by (rule block_contains_new[OF "1.prems"(2) "1.prems"(3) conjunct1[OF al] prog])
           (use al in \<open>simp_all add: msize_def\<close>)
      from mem bs2 have "b \<in> insert ?B (set bs)"
        using set_update_subset_insert[of bs ?n ?B] by (auto split: if_splits)
      with old new show "block_contains ?ds b" by auto
    qed
    have "table_contains (mdata (sort_mfd (fs_bctl ?s2))) (fs_bctl s')"
    proof (rule "1.IH"[OF True ibs f w])
      show "sorted_wrt (\<lambda>a b. eblob_id_cmp (key a) (key b) \<le> 0) (mdata (sort_mfd (fs_bctl ?s2)))"
        using "1.prems"(2) srt2 by simp
      show "hdr_size dvd offset ?s2" using al by simp
      show "offset ?s2 \<le> msize (sort_mfd (fs_bctl ?s2))" using al srt2 by simp
      show "table_contains (mdata (sort_mfd (fs_bctl ?s2))) (fs_bctl ?s2)"
        using tc2 srt2 by simp
    qed
    with srt2 show ?thesis by simp
  qed
qed


lemma fill_success:
  assumes run: "eblob_index_blocks_fill E cfg bctl = Inr (0, bctl')"
    and bl: "bloom bctl' \<noteq> None"
  shows "\<exists>s0 s n. fill_while E cfg s0 = Inr (Inr s) \<and> offset s0 = 0
           \<and> sort_mfd (fs_bctl s0) = sort_mfd bctl
           \<and> index_blocks (fs_bctl s0) = Some (replicate n zero_block)
           \<and> index_blocks bctl' = index_blocks (fs_bctl s)"
proof -
  from run obtain bs where bs: "eblob_bloom_size cfg bctl = Inr bs"
    by (cases "eblob_bloom_size cfg bctl") (simp_all add: eblob_index_blocks_fill_def)
  from run bs obtain k where k: "eblob_bloom_func_num (bctl\<lparr>bloom_size := bs\<rparr>) = Inr k"
    by (cases "eblob_bloom_func_num (bctl\<lparr>bloom_size := bs\<rparr>)")
       (simp_all add: eblob_index_blocks_fill_def)
  have cb: "calloc_bloom_ok E"
  proof (rule ccontr)
    assume "\<not> calloc_bloom_ok E"
    with run bs k have "bloom bctl' = None"
      by (auto simp: eblob_index_blocks_fill_def Let_def)
    with bl show False by simp
  qed
  have ck: "calloc_blocks_ok E"
  proof (rule ccontr)
    assume "\<not> calloc_blocks_ok E"
    with run bs k cb show False
      by (auto simp: eblob_index_blocks_fill_def Let_def ENOMEM_def)
  qed
  define n where "n = howmany (msize (sort_mfd bctl) div hdr_size) (index_block_size cfg)"
  define b5 where "b5 = bctl\<lparr>bloom_size := bs, bloom_func_num := k,
      bloom := Some (replicate (8 * bs) False),
      index_blocks := Some (replicate n zero_block),
      stat := (stat bctl)\<lparr>LST_BLOOM_SIZE := int bs,
                LST_INDEX_BLOCKS_SIZE := int (n * index_block_sizeof)\<rparr>\<rparr>"
  define s0 where "s0 = \<lparr>fs_bctl = b5, cur_dc = zero_dc, block = 0, block_id = 0,
      err_count = 0, offset = 0, removed = 0, removed_size = 0\<rparr>"
  from run bs k cb ck
  have r: "(case fill_while E cfg s0 of
              Inl t \<Rightarrow> Inl t
            | Inr (Inl r) \<Rightarrow> Inr r
            | Inr (Inr s) \<Rightarrow>
                Inr (0, (fs_bctl s)\<lparr>stat := (stat (fs_bctl s))
                          \<lparr>LST_RECORDS_REMOVED := sint (removed s),
                           LST_REMOVED_SIZE := sint (removed_size s)\<rparr>\<rparr>)) = Inr (0, bctl')"
    by (simp add: eblob_index_blocks_fill_def Let_def s0_def b5_def n_def)
  have "\<exists>s. fill_while E cfg s0 = Inr (Inr s) \<and> index_blocks bctl' = index_blocks (fs_bctl s)"
  proof (cases "fill_while E cfg s0")
    case (Inl t)
    with r show ?thesis by simp
  next
    case (Inr x)
    show ?thesis
    proof (cases x)
      case (Inl eb)
      obtain e b where eb: "eb = (e, b)" by (cases eb)
      with Inl Inr r have "b = bctl'" by simp
      moreover from Inl Inr eb have "bloom b = None" by (simp add: fill_while_abort)
      ultimately show ?thesis using bl by simp
    next
      case (Inr s)
      with \<open>fill_while E cfg s0 = Inr x\<close> r show ?thesis by auto
    qed
  qed
  moreover have "offset s0 = 0" "sort_mfd (fs_bctl s0) = sort_mfd bctl"
    "index_blocks (fs_bctl s0) = Some (replicate n zero_block)"
    by (simp_all add: s0_def b5_def)
  ultimately show ?thesis by blast
qed

text \<open>
  C7. When \<^verbatim>\<open>eblob_index_blocks_fill\<close> on an index whose keys never decrease returns 0
  and leaves a Bloom filter and a block table (which tells the completed build from
  the paths that return 0 without one), every block of the table contains the keys of
  the records in its range of offsets.
\<close>

theorem eblob_index_blocks_fill_range_containment:
  assumes run: "eblob_index_blocks_fill E cfg bctl = Inr (0, bctl')"
    and bl: "bloom bctl' \<noteq> None"
    and srt: "sorted_wrt (\<lambda>a b. eblob_id_cmp (key a) (key b) \<le> 0) (mdata (sort_mfd bctl))"
    and tab: "index_blocks bctl' = Some blocks" and mem: "b \<in> set blocks"
  shows "block_contains (mdata (sort_mfd bctl)) b"
proof -
  from fill_success[OF run bl] obtain s0 s n where
    w: "fill_while E cfg s0 = Inr (Inr s)" and o: "offset s0 = 0"
    and sm: "sort_mfd (fs_bctl s0) = sort_mfd bctl"
    and z: "index_blocks (fs_bctl s0) = Some (replicate n zero_block)"
    and ib: "index_blocks bctl' = index_blocks (fs_bctl s)"
    by blast
  have "table_contains (mdata (sort_mfd (fs_bctl s0))) (fs_bctl s0)"
    using z by (simp add: table_contains_def block_contains_zero)
  with fill_while_contains[OF w] srt sm o
  have tc: "table_contains (mdata (sort_mfd bctl)) (fs_bctl s)" by simp
  from ib tab have "index_blocks (fs_bctl s) = Some blocks" by simp
  with tc mem show ?thesis by (auto simp: table_contains_def)
qed

theorem eblob_index_blocks_fill_range_containment_witness:
  "eblob_index_blocks_fill ex_env ex_cfg c7_bctl = Inr (0, fill_of ex_env ex_cfg c7_bctl)
   \<and> index_blocks (fill_of ex_env ex_cfg c7_bctl) =
       Some [\<lparr>start_key = [1], end_key = [4], start_offset = 0, end_offset = 384\<rparr>,
             \<lparr>start_key = [5], end_key = [6], start_offset = 384, end_offset = 576\<rparr>]
   \<and> block_contains (mdata (sort_mfd c7_bctl))
         \<lparr>start_key = [5], end_key = [6], start_offset = 384, end_offset = 576\<rparr>"
proof -
  have run: "eblob_index_blocks_fill ex_env ex_cfg c7_bctl
               = Inr (0, fill_of ex_env ex_cfg c7_bctl)"
    by code_simp
  have bl: "bloom (fill_of ex_env ex_cfg c7_bctl) \<noteq> None"
    by code_simp
  have srt: "sorted_wrt (\<lambda>a b. eblob_id_cmp (key a) (key b) \<le> 0) (mdata (sort_mfd c7_bctl))"
    by code_simp
  have tab: "index_blocks (fill_of ex_env ex_cfg c7_bctl) =
               Some [\<lparr>start_key = [1], end_key = [4], start_offset = 0, end_offset = 384\<rparr>,
                     \<lparr>start_key = [5], end_key = [6], start_offset = 384, end_offset = 576\<rparr>]"
    by code_simp
  have "block_contains (mdata (sort_mfd c7_bctl))
          \<lparr>start_key = [5], end_key = [6], start_offset = 384, end_offset = 576\<rparr>"
    by (rule eblob_index_blocks_fill_range_containment[OF run bl srt tab]) simp
  with run tab show ?thesis by simp
qed

subsection \<open>Completeness of the two-level search\<close>

text \<open>The comparison of two keys is the lexicographic order of their bytes.\<close>

lemma id_cmp_order:
  "(eblob_id_cmp a b < 0 \<longleftrightarrow> a < b) \<and> (eblob_id_cmp a b = 0 \<longleftrightarrow> a = b)
   \<and> (0 < eblob_id_cmp a b \<longleftrightarrow> b < a)"
  by (induction a b rule: eblob_id_cmp.induct) auto


lemma id_cmp_less: "eblob_id_cmp a b < 0 \<longleftrightarrow> a < b"
  using id_cmp_order[of a b] by simp

lemma id_cmp_greater: "0 < eblob_id_cmp a b \<longleftrightarrow> b < a"
  using id_cmp_order[of a b] by simp




















subsection \<open>What a completed build leaves\<close>






























subsection \<open>Tombstones and older bases\<close>








end
